theory Spec2Isabelle
  imports Complex_Main "HOL-Library.Word"
begin

section \<open>Pixels and surfaces\<close>

text \<open>
  The drawing application of \<^verbatim>\<open>src/app/page.tsx\<close> keeps all its pixels in HTML canvas
  elements. A pixel is four 8-bit channels, as an \<^verbatim>\<open>ImageData\<close> buffer stores them; a
  surface is a width, a height and the pixel at every coordinate. Only the pixels with
  \<open>x < width\<close> and \<open>y < height\<close> belong to the surface: \<open>pixel_at\<close> reads them and two
  surfaces have the same content when \<open>same_content\<close> holds.
\<close>

datatype rgba = RGBA (red: "8 word") (green: "8 word") (blue: "8 word") (alpha: "8 word")

definition transparent_black :: rgba where
  "transparent_black = RGBA 0 0 0 0"

definition opaque_white :: rgba where
  "opaque_white = RGBA 255 255 255 255"

record surface =
  width :: nat
  height :: nat
  pix :: "nat \<Rightarrow> nat \<Rightarrow> rgba"

definition pixel_at :: "surface \<Rightarrow> nat \<Rightarrow> nat \<Rightarrow> rgba option" where
  "pixel_at s i j = (if i < width s \<and> j < height s then Some (pix s i j) else None)"

definition same_content :: "surface \<Rightarrow> surface \<Rightarrow> bool" where
  "same_content a b \<longleftrightarrow> width a = width b \<and> height a = height b \<and> pixel_at a = pixel_at b"

definition solid :: "nat \<Rightarrow> nat \<Rightarrow> rgba \<Rightarrow> surface" where
  "solid w h c = \<lparr>width = w, height = h, pix = (\<lambda>i j. c)\<rparr>"

record Point =
  pt_x :: real
  pt_y :: real

section \<open>The browser's side of the canvas API\<close>

text \<open>
  The source calls the 2D context of the browser. What the HTML standard fixes exactly
  (clearing, filling with an opaque or a fully transparent colour, copying image data,
  resetting the bitmap when a dimension is assigned, the exceptions on empty sources) is
  defined below. What the browser computes on its own stays a parameter, collected in a
  \<open>platform\<close>: the blend of a partially transparent pixel, the encoding of a canvas as a
  data URL and its decoding, and the rasterisation of a stroked path.
\<close>

datatype path_seg =
    MoveTo Point
  | LineTo Point
  | Rect real real real real
  | Arc real real real real real

record stroke_style =
  ss_color :: rgba
  ss_width :: real
  ss_cap :: string
  ss_join :: string

record platform =
  blend :: "rgba \<Rightarrow> rgba \<Rightarrow> rgba"
  toDataURL :: "surface \<Rightarrow> string"
  decodeImage :: "string \<Rightarrow> surface option"
  strokePixels :: "path_seg list \<Rightarrow> stroke_style \<Rightarrow> surface \<Rightarrow> nat \<Rightarrow> nat \<Rightarrow> rgba"

datatype dom_error = TypeError | IndexSizeError | InvalidStateError

text \<open>
  Source-over compositing of one pixel: an opaque source replaces the destination, a fully
  transparent source leaves it, anything between is the platform's blend.
\<close>

definition source_over :: "platform \<Rightarrow> rgba \<Rightarrow> rgba \<Rightarrow> rgba" where
  "source_over P src dst =
     (if alpha src = 255 then src
      else if alpha src = 0 then dst
      else blend P src dst)"

text \<open>
  The colours the source assigns are \<^verbatim>\<open>"#RRGGBB"\<close> strings and the literal
  \<^verbatim>\<open>"rgba(255, 255, 255, 0)"\<close>. A string that does not parse leaves the style as it was,
  as the setter of the standard does.
\<close>

definition hex_digit :: "char \<Rightarrow> nat option" where
  "hex_digit c =
     (let n = (of_char c :: nat) in
      if 48 \<le> n \<and> n \<le> 57 then Some (n - 48)
      else if 65 \<le> n \<and> n \<le> 70 then Some (n - 55)
      else if 97 \<le> n \<and> n \<le> 102 then Some (n - 87)
      else None)"

definition hex_byte :: "char \<Rightarrow> char \<Rightarrow> 8 word option" where
  "hex_byte a b =
     (case (hex_digit a, hex_digit b) of
        (Some h, Some l) \<Rightarrow> Some (of_nat (16 * h + l))
      | _ \<Rightarrow> None)"

definition css_color :: "string \<Rightarrow> rgba option" where
  "css_color s =
     (if s = ''rgba(255, 255, 255, 0)'' then Some (RGBA 255 255 255 0)
      else if length s = 7 \<and> s ! 0 = CHR ''#'' then
        (case (hex_byte (s ! 1) (s ! 2), hex_byte (s ! 3) (s ! 4), hex_byte (s ! 5) (s ! 6)) of
           (Some r, Some g, Some b) \<Rightarrow> Some (RGBA r g b 255)
         | _ \<Rightarrow> None)
      else None)"

record canvas_elem =
  bitmap :: surface
  fillStyle :: rgba
  strokeStyle :: rgba
  lineWidth :: real
  lineCap :: string
  lineJoin :: string
  path :: "path_seg list"

text \<open>A canvas as \<^verbatim>\<open>document.createElement("canvas")\<close> or a dimension assignment leaves it.\<close>

definition fresh_canvas :: "nat \<Rightarrow> nat \<Rightarrow> canvas_elem" where
  "fresh_canvas w h =
     \<lparr>bitmap = solid w h transparent_black,
      fillStyle = RGBA 0 0 0 255, strokeStyle = RGBA 0 0 0 255,
      lineWidth = 1, lineCap = ''butt'', lineJoin = ''miter'', path = []\<rparr>"

definition set_width :: "nat \<Rightarrow> canvas_elem \<Rightarrow> canvas_elem" where
  "set_width w cv = fresh_canvas w (height (bitmap cv))"

definition set_height :: "nat \<Rightarrow> canvas_elem \<Rightarrow> canvas_elem" where
  "set_height h cv = fresh_canvas (width (bitmap cv)) h"

definition set_fillStyle :: "string \<Rightarrow> canvas_elem \<Rightarrow> canvas_elem" where
  "set_fillStyle s cv = (case css_color s of None \<Rightarrow> cv | Some c \<Rightarrow> cv\<lparr>fillStyle := c\<rparr>)"

definition set_strokeStyle :: "string \<Rightarrow> canvas_elem \<Rightarrow> canvas_elem" where
  "set_strokeStyle s cv = (case css_color s of None \<Rightarrow> cv | Some c \<Rightarrow> cv\<lparr>strokeStyle := c\<rparr>)"

definition set_lineWidth :: "real \<Rightarrow> canvas_elem \<Rightarrow> canvas_elem" where
  "set_lineWidth v cv = (if 0 < v then cv\<lparr>lineWidth := v\<rparr> else cv)"

definition in_rect :: "nat \<Rightarrow> nat \<Rightarrow> nat \<Rightarrow> nat \<Rightarrow> nat \<Rightarrow> nat \<Rightarrow> bool" where
  "in_rect x0 y0 w h i j \<longleftrightarrow> x0 \<le> i \<and> i < x0 + w \<and> y0 \<le> j \<and> j < y0 + h"

definition paint :: "(nat \<Rightarrow> nat \<Rightarrow> rgba \<Rightarrow> rgba) \<Rightarrow> nat \<Rightarrow> nat \<Rightarrow> nat \<Rightarrow> nat \<Rightarrow> surface \<Rightarrow> surface" where
  "paint f x0 y0 w h b =
     b\<lparr>pix := (\<lambda>i j. if in_rect x0 y0 w h i j \<and> i < width b \<and> j < height b
                      then f i j (pix b i j) else pix b i j)\<rparr>"

definition clearRect :: "nat \<Rightarrow> nat \<Rightarrow> nat \<Rightarrow> nat \<Rightarrow> canvas_elem \<Rightarrow> canvas_elem" where
  "clearRect x0 y0 w h cv = cv\<lparr>bitmap := paint (\<lambda>i j d. transparent_black) x0 y0 w h (bitmap cv)\<rparr>"

definition fillRect :: "platform \<Rightarrow> nat \<Rightarrow> nat \<Rightarrow> nat \<Rightarrow> nat \<Rightarrow> canvas_elem \<Rightarrow> canvas_elem" where
  "fillRect P x0 y0 w h cv =
     cv\<lparr>bitmap := paint (\<lambda>i j d. source_over P (fillStyle cv) d) x0 y0 w h (bitmap cv)\<rparr>"

text \<open>\<^verbatim>\<open>getImageData\<close> throws on an empty rectangle; pixels outside the canvas read as
  transparent black.\<close>

definition getImageData :: "nat \<Rightarrow> nat \<Rightarrow> nat \<Rightarrow> nat \<Rightarrow> canvas_elem \<Rightarrow> dom_error + surface" where
  "getImageData sx sy sw sh cv =
     (if sw = 0 \<or> sh = 0 then Inl IndexSizeError
      else Inr \<lparr>width = sw, height = sh,
                pix = (\<lambda>i j. case pixel_at (bitmap cv) (sx + i) (sy + j) of
                                None \<Rightarrow> transparent_black | Some p \<Rightarrow> p)\<rparr>)"

definition putImageData :: "surface \<Rightarrow> nat \<Rightarrow> nat \<Rightarrow> canvas_elem \<Rightarrow> canvas_elem" where
  "putImageData img dx dy cv =
     cv\<lparr>bitmap := paint (\<lambda>i j d. pix img (i - dx) (j - dy)) dx dy (width img) (height img) (bitmap cv)\<rparr>"

text \<open>\<^verbatim>\<open>drawImage\<close> of a decoded image draws nothing when the image is empty; of a canvas
  it throws when the source canvas is empty.\<close>

definition drawImage_img :: "platform \<Rightarrow> surface \<Rightarrow> nat \<Rightarrow> nat \<Rightarrow> canvas_elem \<Rightarrow> canvas_elem" where
  "drawImage_img P img dx dy cv =
     cv\<lparr>bitmap := paint (\<lambda>i j d. source_over P (pix img (i - dx) (j - dy)) d)
                        dx dy (width img) (height img) (bitmap cv)\<rparr>"

definition drawImage_canvas ::
  "platform \<Rightarrow> surface \<Rightarrow> nat \<Rightarrow> nat \<Rightarrow> canvas_elem \<Rightarrow> dom_error + canvas_elem" where
  "drawImage_canvas P src dx dy cv =
     (if width src = 0 \<or> height src = 0 then Inl InvalidStateError
      else Inr (drawImage_img P src dx dy cv))"

definition beginPath :: "canvas_elem \<Rightarrow> canvas_elem" where
  "beginPath cv = cv\<lparr>path := []\<rparr>"

definition add_seg :: "path_seg \<Rightarrow> canvas_elem \<Rightarrow> canvas_elem" where
  "add_seg g cv = cv\<lparr>path := path cv @ [g]\<rparr>"

definition stroke :: "platform \<Rightarrow> canvas_elem \<Rightarrow> canvas_elem" where
  "stroke P cv =
     cv\<lparr>bitmap := (bitmap cv)\<lparr>pix :=
        strokePixels P (path cv)
          \<lparr>ss_color = strokeStyle cv, ss_width = lineWidth cv,
           ss_cap = lineCap cv, ss_join = lineJoin cv\<rparr> (bitmap cv)\<rparr>\<rparr>"

section \<open>The state of the component\<close>

text \<open>
  The component keeps its state in React state variables and in the canvas that
  \<^verbatim>\<open>canvasRef\<close> points to. A handler runs to its end on the state of the latest render,
  and the updates it queues take effect together when it returns, so a handler is a
  function from the state before the event to the state after it, or to the exception it
  throws.
\<close>

datatype DrawingMode = Pen | Eraser | Rectangle | Circle | Line

text \<open>
  A layer's \<^verbatim>\<open>canvas\<close> field is null, the on-screen canvas itself (the initialising
  effect stores \<^verbatim>\<open>canvasRef.current\<close> in the first layer) or an off-screen canvas
  made by \<^verbatim>\<open>addLayer\<close>. No code draws on an off-screen canvas after \<^verbatim>\<open>addLayer\<close>
  has made it, so it is held by value; the alias to the on-screen canvas is a constructor.
\<close>

datatype canvas_ref = MainCanvas | Offscreen canvas_elem

record Layer =
  layer_id :: string
  layer_name :: string
  visible :: bool
  layer_canvas :: "canvas_ref option"

record app_state =
  canvasRef :: "canvas_elem option"
  isDrawing :: bool
  drawingMode :: DrawingMode
  color :: string
  brushSize :: real
  startPoint :: "Point option"
  layers :: "Layer list"
  activeLayerIndex :: int
  history :: "string list"
  historyIndex :: int
  shapePreviewImage :: "surface option"

definition initial_state :: app_state where
  "initial_state =
     \<lparr>canvasRef = None, isDrawing = False, drawingMode = Pen, color = ''#000000'',
      brushSize = 5, startPoint = None,
      layers = [\<lparr>layer_id = ''layer-1'', layer_name = ''Layer 1'', visible = True,
                 layer_canvas = None\<rparr>],
      activeLayerIndex = 0, history = [], historyIndex = - 1, shapePreviewImage = None\<rparr>"

section \<open>History\<close>

text \<open>JavaScript's \<^verbatim>\<open>xs.slice(0, e)\<close> and \<^verbatim>\<open>xs[i]\<close> (\<open>None\<close> is \<^verbatim>\<open>undefined\<close>).\<close>

definition js_slice0 :: "'a list \<Rightarrow> int \<Rightarrow> 'a list" where
  "js_slice0 xs e =
     (let n = int (length xs);
          k = (if e < 0 then max (n + e) 0 else min e n)
      in take (nat k) xs)"

definition js_index :: "'a list \<Rightarrow> int \<Rightarrow> 'a option" where
  "js_index xs i = (if 0 \<le> i \<and> i < int (length xs) then Some (xs ! nat i) else None)"

definition saveToHistory :: "platform \<Rightarrow> app_state \<Rightarrow> app_state" where
  "saveToHistory P s =
     (case canvasRef s of
        None \<Rightarrow> s
      | Some cv \<Rightarrow>
          let dataURL = toDataURL P (bitmap cv);
              kept = (if historyIndex s < int (length (history s)) - 1
                      then js_slice0 (history s) (historyIndex s + 1)
                      else history s)
          in s\<lparr>history := kept @ [dataURL], historyIndex := historyIndex s + 1\<rparr>)"

text \<open>
  \<^verbatim>\<open>handleUndo\<close> and \<^verbatim>\<open>handleRedo\<close> move the cursor and start loading the entry at the
  new cursor into an \<^verbatim>\<open>Image\<close>; the handler's result is the new state and the load it
  started. \<open>image_loaded\<close> is the \<^verbatim>\<open>onload\<close> callback, which runs once the browser has
  decoded the entry; \<open>undo\<close> and \<open>redo\<close> are a handler followed by its load.
\<close>

datatype image_load = NoLoad | Load "string option"

definition handleUndo :: "app_state \<Rightarrow> app_state \<times> image_load" where
  "handleUndo s =
     (if historyIndex s > 0 then
        let newIndex = historyIndex s - 1
        in (s\<lparr>historyIndex := newIndex\<rparr>, Load (js_index (history s) newIndex))
      else (s, NoLoad))"

definition handleRedo :: "app_state \<Rightarrow> app_state \<times> image_load" where
  "handleRedo s =
     (if historyIndex s < int (length (history s)) - 1 then
        let newIndex = historyIndex s + 1
        in (s\<lparr>historyIndex := newIndex\<rparr>, Load (js_index (history s) newIndex))
      else (s, NoLoad))"

definition onload :: "platform \<Rightarrow> surface \<Rightarrow> app_state \<Rightarrow> app_state" where
  "onload P img s =
     (case canvasRef s of
        None \<Rightarrow> s
      | Some cv \<Rightarrow>
          s\<lparr>canvasRef := Some (drawImage_img P img 0 0
               (clearRect 0 0 (width (bitmap cv)) (height (bitmap cv)) cv))\<rparr>)"

definition image_loaded :: "platform \<Rightarrow> image_load \<Rightarrow> app_state \<Rightarrow> app_state" where
  "image_loaded P l s =
     (case l of
        NoLoad \<Rightarrow> s
      | Load None \<Rightarrow> s
      | Load (Some url) \<Rightarrow> (case decodeImage P url of None \<Rightarrow> s | Some img \<Rightarrow> onload P img s))"

definition undo :: "platform \<Rightarrow> app_state \<Rightarrow> app_state" where
  "undo P s = (case handleUndo s of (s', l) \<Rightarrow> image_loaded P l s')"

definition redo :: "platform \<Rightarrow> app_state \<Rightarrow> app_state" where
  "redo P s = (case handleRedo s of (s', l) \<Rightarrow> image_loaded P l s')"

definition wf_history :: "app_state \<Rightarrow> bool" where
  "wf_history s \<longleftrightarrow> - 1 \<le> historyIndex s \<and> historyIndex s \<le> int (length (history s)) - 1"

definition handleClearCanvas :: "platform \<Rightarrow> app_state \<Rightarrow> app_state" where
  "handleClearCanvas P s =
     (case canvasRef s of
        None \<Rightarrow> s
      | Some cv \<Rightarrow>
          let c1 = set_fillStyle ''#FFFFFF'' cv;
              c2 = fillRect P 0 0 (width (bitmap c1)) (height (bitmap c1)) c1
          in saveToHistory P (s\<lparr>canvasRef := Some c2\<rparr>))"

section \<open>Layers and the compositor\<close>

text \<open>The decimal numeral a template literal prints for a length.\<close>

fun string_of_nat :: "nat \<Rightarrow> string" where
  "string_of_nat n =
     (if n < 10 then [''0123456789'' ! n]
      else string_of_nat (n div 10) @ [''0123456789'' ! (n mod 10)])"

declare string_of_nat.simps [simp del]

definition addLayer :: "platform \<Rightarrow> app_state \<Rightarrow> app_state" where
  "addLayer P s =
     (let n = length (layers s) + 1;
          created = fresh_canvas 300 150;
          cv = (case canvasRef s of
                  None \<Rightarrow> created
                | Some main \<Rightarrow>
                    let c1 = set_width (width (bitmap main)) created;
                        c2 = set_height (height (bitmap main)) c1;
                        c3 = set_fillStyle ''rgba(255, 255, 255, 0)'' c2
                    in fillRect P 0 0 (width (bitmap c3)) (height (bitmap c3)) c3);
          newLayer = \<lparr>layer_id = ''layer-'' @ string_of_nat n,
                      layer_name = ''Layer '' @ string_of_nat n,
                      visible = True, layer_canvas = Some (Offscreen cv)\<rparr>
      in s\<lparr>layers := layers s @ [newLayer], activeLayerIndex := int (length (layers s))\<rparr>)"

text \<open>
  \<^verbatim>\<open>redrawCanvas\<close>: clear, fill with white, then walk the layers from the first to the
  last and draw the canvas of each layer that is visible and has one. The first layer's
  canvas is the on-screen canvas, so drawing it reads the bitmap being composed.
\<close>

definition source_bitmap :: "canvas_ref \<Rightarrow> canvas_elem \<Rightarrow> surface" where
  "source_bitmap r cv = (case r of MainCanvas \<Rightarrow> bitmap cv | Offscreen c \<Rightarrow> bitmap c)"

fun draw_layers :: "platform \<Rightarrow> Layer list \<Rightarrow> canvas_elem \<Rightarrow> dom_error + canvas_elem" where
  "draw_layers P [] cv = Inr cv"
| "draw_layers P (l # ls) cv =
     (if visible l then
        (case layer_canvas l of
           None \<Rightarrow> draw_layers P ls cv
         | Some r \<Rightarrow>
             (case drawImage_canvas P (source_bitmap r cv) 0 0 cv of
                Inl e \<Rightarrow> Inl e
              | Inr cv' \<Rightarrow> draw_layers P ls cv'))
      else draw_layers P ls cv)"

definition white_background :: "platform \<Rightarrow> canvas_elem \<Rightarrow> canvas_elem" where
  "white_background P cv =
     (let w = width (bitmap cv); h = height (bitmap cv);
          c1 = clearRect 0 0 w h cv;
          c2 = set_fillStyle ''#FFFFFF'' c1
      in fillRect P 0 0 w h c2)"

definition composite :: "platform \<Rightarrow> Layer list \<Rightarrow> canvas_elem \<Rightarrow> dom_error + canvas_elem" where
  "composite P ls cv = draw_layers P ls (white_background P cv)"

definition redrawCanvas :: "platform \<Rightarrow> app_state \<Rightarrow> dom_error + app_state" where
  "redrawCanvas P s =
     (case canvasRef s of
        None \<Rightarrow> Inr s
      | Some cv \<Rightarrow>
          (case composite P (layers s) cv of
             Inl e \<Rightarrow> Inl e
           | Inr cv' \<Rightarrow> Inr (s\<lparr>canvasRef := Some cv'\<rparr>)))"

text \<open>\<^verbatim>\<open>prev.filter((_, i) => i !== index)\<close>.\<close>

definition remove_at :: "int \<Rightarrow> 'a list \<Rightarrow> 'a list" where
  "remove_at index xs = map fst (filter (\<lambda>(l, i). int i \<noteq> index) (zip xs [0..<length xs]))"

text \<open>
  \<^verbatim>\<open>deleteLayer\<close> queues the two state updates and then calls the \<^verbatim>\<open>redrawCanvas\<close> of
  the same render, which still walks the layers as they were before the deletion.
\<close>

definition deleteLayer :: "platform \<Rightarrow> int \<Rightarrow> app_state \<Rightarrow> dom_error + app_state" where
  "deleteLayer P index s =
     (if length (layers s) > 1 then
        (case redrawCanvas P s of
           Inl e \<Rightarrow> Inl e
         | Inr s1 \<Rightarrow>
             Inr (s1\<lparr>layers := remove_at index (layers s),
                     activeLayerIndex :=
                       (if activeLayerIndex s \<ge> index then max 0 (activeLayerIndex s - 1)
                        else activeLayerIndex s)\<rparr>))
      else Inr s)"

section \<open>Mounting and resizing\<close>

text \<open>
  React stores the canvas element in \<^verbatim>\<open>canvasRef\<close> when the drawing interface is first
  rendered; the initialising effect then sizes it to its container, fills it with white,
  stores it in the first layer and saves the first history entry. The container, when
  there is one, is given by its client width and height.
\<close>

definition mountCanvas :: "app_state \<Rightarrow> app_state" where
  "mountCanvas s = s\<lparr>canvasRef := Some (fresh_canvas 300 150)\<rparr>"

definition initEffect :: "platform \<Rightarrow> (nat \<times> nat) option \<Rightarrow> app_state \<Rightarrow> app_state" where
  "initEffect P container s =
     (case canvasRef s of
        None \<Rightarrow> s
      | Some cv \<Rightarrow>
          let c1 = (case container of
                      None \<Rightarrow> cv
                    | Some (cw, ch) \<Rightarrow> set_height ch (set_width cw cv));
              c2 = set_fillStyle ''#FFFFFF'' c1;
              c3 = fillRect P 0 0 (width (bitmap c2)) (height (bitmap c2)) c2;
              ls = map (\<lambda>(layer, index).
                          if index = 0 \<and> layer_canvas layer = None
                          then layer\<lparr>layer_canvas := Some MainCanvas\<rparr> else layer)
                       (zip (layers s) [0..<length (layers s)])
          in saveToHistory P (s\<lparr>canvasRef := Some c3, layers := ls\<rparr>))"

text \<open>The two resize effects (the second one is registered "for mobile") run the same body.\<close>

definition handleResize :: "(nat \<times> nat) option \<Rightarrow> app_state \<Rightarrow> dom_error + app_state" where
  "handleResize container s =
     (case canvasRef s of
        None \<Rightarrow> Inr s
      | Some cv \<Rightarrow>
          (case container of
             None \<Rightarrow> Inr s
           | Some (cw, ch) \<Rightarrow>
               (case getImageData 0 0 (width (bitmap cv)) (height (bitmap cv)) cv of
                  Inl e \<Rightarrow> Inl e
                | Inr currentImageData \<Rightarrow>
                    Inr (s\<lparr>canvasRef :=
                           Some (putImageData currentImageData 0 0
                                   (set_height ch (set_width cw cv)))\<rparr>))))"

section \<open>Pointer and touch handlers\<close>

text \<open>
  An event carries client coordinates: a mouse event its own, a touch event those of its
  list of touches. \<open>origin\<close> is the left and top of the canvas's bounding rectangle at the
  time of the event.
\<close>

datatype pointer_event = MouseEvent real real | TouchEvent "(real \<times> real) list"

definition first_touch :: "(real \<times> real) list \<Rightarrow> dom_error + real \<times> real" where
  "first_touch ts = (case ts of [] \<Rightarrow> Inl TypeError | t # _ \<Rightarrow> Inr t)"

definition getCoordinates :: "real \<times> real \<Rightarrow> pointer_event \<Rightarrow> app_state \<Rightarrow> dom_error + Point" where
  "getCoordinates origin e s =
     (case (case e of TouchEvent ts \<Rightarrow> first_touch ts | MouseEvent cx cy \<Rightarrow> Inr (cx, cy)) of
        Inl err \<Rightarrow> Inl err
      | Inr (clientX, clientY) \<Rightarrow>
          (case canvasRef s of
             Some cv \<Rightarrow> Inr \<lparr>pt_x = clientX - fst origin, pt_y = clientY - snd origin\<rparr>
           | None \<Rightarrow> Inr \<lparr>pt_x = 0, pt_y = 0\<rparr>))"

text \<open>The touch handlers compute the point themselves, with \<^verbatim>\<open>|| 0\<close> for a missing canvas.\<close>

definition touch_point :: "real \<times> real \<Rightarrow> (real \<times> real) list \<Rightarrow> app_state \<Rightarrow> dom_error + Point" where
  "touch_point origin ts s =
     (case first_touch ts of
        Inl err \<Rightarrow> Inl err
      | Inr (clientX, clientY) \<Rightarrow>
          Inr \<lparr>pt_x = clientX - (case canvasRef s of None \<Rightarrow> 0 | Some cv \<Rightarrow> fst origin),
               pt_y = clientY - (case canvasRef s of None \<Rightarrow> 0 | Some cv \<Rightarrow> snd origin)\<rparr>)"

text \<open>The body \<^verbatim>\<open>startDrawing\<close> and \<^verbatim>\<open>handleTouchStart\<close> share once they have the point.\<close>

definition begin_at :: "Point \<Rightarrow> app_state \<Rightarrow> dom_error + app_state" where
  "begin_at point s =
     (let s1 = s\<lparr>isDrawing := True, startPoint := Some point\<rparr>
      in if drawingMode s = Pen \<or> drawingMode s = Eraser then
           (case canvasRef s of
              None \<Rightarrow> Inr s1
            | Some cv \<Rightarrow>
                let c1 = add_seg (MoveTo point) (beginPath cv);
                    c2 = c1\<lparr>lineCap := ''round'', lineJoin := ''round''\<rparr>;
                    c3 = set_strokeStyle (if drawingMode s = Eraser then ''#FFFFFF'' else color s) c2;
                    c4 = set_lineWidth (brushSize s) c3
                in Inr (s1\<lparr>canvasRef := Some c4\<rparr>))
         else
           (case canvasRef s of
              None \<Rightarrow> Inr s1
            | Some cv \<Rightarrow>
                (case getImageData 0 0 (width (bitmap cv)) (height (bitmap cv)) cv of
                   Inl e \<Rightarrow> Inl e
                 | Inr img \<Rightarrow> Inr (s1\<lparr>shapePreviewImage := Some img\<rparr>))))"

definition startDrawing :: "real \<times> real \<Rightarrow> pointer_event \<Rightarrow> app_state \<Rightarrow> dom_error + app_state" where
  "startDrawing origin e s =
     (case getCoordinates origin e s of Inl err \<Rightarrow> Inl err | Inr point \<Rightarrow> begin_at point s)"

definition handleTouchStart :: "real \<times> real \<Rightarrow> (real \<times> real) list \<Rightarrow> app_state \<Rightarrow> dom_error + app_state" where
  "handleTouchStart origin ts s =
     (case touch_point origin ts s of Inl err \<Rightarrow> Inl err | Inr point \<Rightarrow> begin_at point s)"

text \<open>The \<^verbatim>\<open>switch\<close> that \<^verbatim>\<open>draw\<close> and \<^verbatim>\<open>handleTouchMove\<close> share.\<close>

definition draw_at :: "platform \<Rightarrow> Point \<Rightarrow> app_state \<Rightarrow> app_state" where
  "draw_at P point s =
     (case canvasRef s of
        None \<Rightarrow> s
      | Some cv \<Rightarrow>
          if drawingMode s = Pen \<or> drawingMode s = Eraser then
            s\<lparr>canvasRef := Some (stroke P (add_seg (LineTo point) cv))\<rparr>
          else
            (case (startPoint s, shapePreviewImage s) of
               (Some sp, Some img) \<Rightarrow>
                 let c1 = putImageData img 0 0 cv;
                     c2 = beginPath c1;
                     c3 = set_strokeStyle (color s) c2;
                     c4 = set_lineWidth (brushSize s) c3
                 in if drawingMode s = Rectangle then
                      s\<lparr>canvasRef := Some (stroke P (add_seg
                          (Rect (pt_x sp) (pt_y sp) (pt_x point - pt_x sp) (pt_y point - pt_y sp)) c4))\<rparr>
                    else if drawingMode s = Circle then
                      let radius = sqrt ((pt_x point - pt_x sp)\<^sup>2 + (pt_y point - pt_y sp)\<^sup>2)
                      in s\<lparr>canvasRef := Some (stroke P (add_seg
                           (Arc (pt_x sp) (pt_y sp) radius 0 (2 * pi)) c4))\<rparr>
                    else
                      s\<lparr>canvasRef := Some (stroke P (add_seg (LineTo point)
                          (add_seg (MoveTo sp) c4)))\<rparr>
             | _ \<Rightarrow> s))"

definition draw :: "platform \<Rightarrow> real \<times> real \<Rightarrow> pointer_event \<Rightarrow> app_state \<Rightarrow> dom_error + app_state" where
  "draw P origin e s =
     (if \<not> isDrawing s then Inr s
      else case getCoordinates origin e s of
             Inl err \<Rightarrow> Inl err
           | Inr point \<Rightarrow> Inr (draw_at P point s))"

definition handleTouchMove ::
  "platform \<Rightarrow> real \<times> real \<Rightarrow> (real \<times> real) list \<Rightarrow> app_state \<Rightarrow> dom_error + app_state" where
  "handleTouchMove P origin ts s =
     (if \<not> isDrawing s then Inr s
      else case touch_point origin ts s of
             Inl err \<Rightarrow> Inl err
           | Inr point \<Rightarrow> Inr (draw_at P point s))"

definition stopDrawing :: "platform \<Rightarrow> app_state \<Rightarrow> app_state" where
  "stopDrawing P s =
     (if isDrawing s then saveToHistory P (s\<lparr>isDrawing := False, shapePreviewImage := None\<rparr>)
      else s)"

definition handleTouchEnd :: "platform \<Rightarrow> app_state \<Rightarrow> app_state" where
  "handleTouchEnd P s =
     (if isDrawing s then saveToHistory P (s\<lparr>isDrawing := False, shapePreviewImage := None\<rparr>)
      else s)"

section \<open>Fixtures and scenarios\<close>

text \<open>
  A small concrete platform for evaluating the handlers: its data URL only records whether
  the canvas is two pixels wide, and decodes to a white surface, so it is lossless on the
  white surfaces \<open>white1\<close> and \<open>white2\<close>.
\<close>

definition test_platform :: platform where
  "test_platform =
     \<lparr>blend = (\<lambda>src dst. src),
      toDataURL = (\<lambda>b. if width b = 2 then ''two'' else ''one''),
      decodeImage = (\<lambda>u. if u = ''two'' then Some (solid 2 2 opaque_white)
                          else if u = ''one'' then Some (solid 1 1 opaque_white) else None),
      strokePixels = (\<lambda>p st b. pix b)\<rparr>"

definition white1 :: surface where
  "white1 = solid 1 1 opaque_white"

definition white2 :: surface where
  "white2 = solid 2 2 opaque_white"

definition hist_state :: "string list \<Rightarrow> int \<Rightarrow> app_state" where
  "hist_state h i = initial_state\<lparr>canvasRef := Some (fresh_canvas 2 2), history := h, historyIndex := i\<rparr>"

text \<open>
  A sequence of checkpoints: before each one the gesture in between has left the canvas
  with some bitmap \<open>c\<close>, and the handler at the end of the gesture saves it.
\<close>

definition canvas_becomes :: "surface \<Rightarrow> app_state \<Rightarrow> app_state" where
  "canvas_becomes c s = s\<lparr>canvasRef := map_option (\<lambda>cv. cv\<lparr>bitmap := c\<rparr>) (canvasRef s)\<rparr>"

definition checkpoints :: "platform \<Rightarrow> surface list \<Rightarrow> app_state \<Rightarrow> app_state" where
  "checkpoints P cs s = foldl (\<lambda>t c. saveToHistory P (canvas_becomes c t)) s cs"

text \<open>
  A surface survives the log when the browser decodes its data URL to the same pixels and
  drawing each of its pixels on a cleared canvas gives that pixel back.
\<close>

definition lossless_on :: "platform \<Rightarrow> surface \<Rightarrow> bool" where
  "lossless_on P c \<longleftrightarrow>
     (case decodeImage P (toDataURL P c) of None \<Rightarrow> False | Some img \<Rightarrow> same_content img c)
     \<and> (\<forall>i < width c. \<forall>j < height c. source_over P (pix c i j) transparent_black = pix c i j)"

text \<open>
  The state once the drawing interface is on screen: the canvas is mounted in a container
  of two by two pixels and the initialising effect has run.
\<close>

definition ready_state :: app_state where
  "ready_state = initEffect test_platform (Some (2, 2)) (mountCanvas initial_state)"

definition two_layers :: app_state where
  "two_layers = addLayer test_platform ready_state"

text \<open>
  Layers for the compositor: an off-screen canvas of two by two pixels filled with one
  colour, visible or hidden.
\<close>

definition opaque_red :: rgba where
  "opaque_red = RGBA 255 0 0 255"

definition opaque_blue :: rgba where
  "opaque_blue = RGBA 0 0 255 255"

definition solid_layer :: "bool \<Rightarrow> rgba \<Rightarrow> Layer" where
  "solid_layer v c =
     \<lparr>layer_id = ''layer-2'', layer_name = ''Layer 2'', visible = v,
      layer_canvas = Some (Offscreen ((fresh_canvas 2 2)\<lparr>bitmap := solid 2 2 c\<rparr>))\<rparr>"

text \<open>
  \<^verbatim>\<open>drawImage\<close> throws on an empty source canvas, so a redraw runs to its end when the
  canvas and the off-screen canvases of the visible layers are not empty.
\<close>

definition nonempty :: "surface \<Rightarrow> bool" where
  "nonempty b \<longleftrightarrow> 0 < width b \<and> 0 < height b"

definition layer_drawable :: "Layer \<Rightarrow> bool" where
  "layer_drawable l =
     (case layer_canvas l of Some (Offscreen c) \<Rightarrow> nonempty (bitmap c) | _ \<Rightarrow> True)"

definition layers_drawable :: "app_state \<Rightarrow> bool" where
  "layers_drawable s =
     (case canvasRef s of
        None \<Rightarrow> True
      | Some cv \<Rightarrow> nonempty (bitmap cv) \<and> list_all layer_drawable (filter visible (layers s)))"

text \<open>Running one handler after another, and reading the outcome of a handler.\<close>

definition then_do :: "dom_error + 'a \<Rightarrow> ('a \<Rightarrow> dom_error + 'b) \<Rightarrow> dom_error + 'b" where
  "then_do r f = (case r of Inl e \<Rightarrow> Inl e | Inr v \<Rightarrow> f v)"

definition result_layers :: "dom_error + app_state \<Rightarrow> Layer list" where
  "result_layers r = (case r of Inl e \<Rightarrow> [] | Inr s \<Rightarrow> layers s)"

definition result_active :: "dom_error + app_state \<Rightarrow> int option" where
  "result_active r = (case r of Inl e \<Rightarrow> None | Inr s \<Rightarrow> Some (activeLayerIndex s))"

definition result_canvas :: "dom_error + app_state \<Rightarrow> canvas_elem option" where
  "result_canvas r = (case r of Inl e \<Rightarrow> None | Inr s \<Rightarrow> canvasRef s)"

definition canvas_pixel :: "dom_error + app_state \<Rightarrow> nat \<Rightarrow> nat \<Rightarrow> rgba option" where
  "canvas_pixel r i j =
     (case result_canvas r of None \<Rightarrow> None | Some cv \<Rightarrow> pixel_at (bitmap cv) i j)"

definition output_pixel :: "dom_error + canvas_elem \<Rightarrow> nat \<Rightarrow> nat \<Rightarrow> rgba option" where
  "output_pixel r i j = (case r of Inl e \<Rightarrow> None | Inr cv \<Rightarrow> pixel_at (bitmap cv) i j)"

text \<open>
  The points a path command was given, and whether they lie within the surface's width
  and height.
\<close>

definition seg_points :: "path_seg \<Rightarrow> Point list" where
  "seg_points g =
     (case g of
        MoveTo p \<Rightarrow> [p]
      | LineTo p \<Rightarrow> [p]
      | Rect x0 y0 w h \<Rightarrow> [\<lparr>pt_x = x0, pt_y = y0\<rparr>, \<lparr>pt_x = x0 + w, pt_y = y0 + h\<rparr>]
      | Arc cx cy r a0 a1 \<Rightarrow> [\<lparr>pt_x = cx, pt_y = cy\<rparr>])"

definition in_bounds :: "surface \<Rightarrow> Point \<Rightarrow> bool" where
  "in_bounds b p \<longleftrightarrow> 0 \<le> pt_x p \<and> pt_x p \<le> real (width b) \<and> 0 \<le> pt_y p \<and> pt_y p \<le> real (height b)"

definition path_in_bounds :: "canvas_elem \<Rightarrow> bool" where
  "path_in_bounds cv = list_all (\<lambda>g. list_all (in_bounds (bitmap cv)) (seg_points g)) (path cv)"






section \<open>History: checkpoints\<close>

lemma js_slice0_take: "0 \<le> e \<Longrightarrow> js_slice0 xs e = take (nat e) xs"
  by (auto simp: js_slice0_def Let_def min_def)

text \<open>
  The cursor stays within \<open>-1 .. length - 1\<close>: it is so at the start, and every handler that
  touches the log keeps it so.
\<close>

lemma wf_history_initial: "wf_history initial_state"
  by (simp add: wf_history_def initial_state_def)

lemma wf_history_saveToHistory: "wf_history s \<Longrightarrow> wf_history (saveToHistory P s)"
  by (auto simp: wf_history_def saveToHistory_def Let_def js_slice0_take split: option.splits)

lemma wf_history_handleUndo: "wf_history s \<Longrightarrow> wf_history (fst (handleUndo s))"
  by (auto simp: wf_history_def handleUndo_def Let_def)

lemma wf_history_handleRedo: "wf_history s \<Longrightarrow> wf_history (fst (handleRedo s))"
  by (auto simp: wf_history_def handleRedo_def Let_def)

text \<open>
  Claim C1. For a log whose cursor is within \<open>-1 .. length - 1\<close> and a mounted canvas,
  \<^verbatim>\<open>saveToHistory\<close> keeps the first \<open>cursor + 1\<close> entries when the cursor is not at the
  last entry (all entries otherwise), appends the snapshot and leaves the cursor at
  \<open>length - 1\<close>; pushed from a cursor that is not at the tip, the new length is
  \<open>cursor + 2\<close>.
\<close>

theorem checkpoint_truncates_then_appends:
  assumes "canvasRef s = Some cv" and "wf_history s"
  shows "history (saveToHistory P s) =
           (if historyIndex s < int (length (history s)) - 1
            then take (nat (historyIndex s + 1)) (history s) else history s)
           @ [toDataURL P (bitmap cv)]
       \<and> historyIndex (saveToHistory P s) = int (length (history (saveToHistory P s))) - 1
       \<and> (historyIndex s < int (length (history s)) - 1 \<longrightarrow>
            int (length (take (nat (historyIndex s + 1)) (history s))) = historyIndex s + 1
          \<and> int (length (history (saveToHistory P s))) = historyIndex s + 2)"
  using assms
  by (auto simp: saveToHistory_def wf_history_def Let_def js_slice0_take)

theorem checkpoint_truncates_then_appends_witness:
  "canvasRef (hist_state [''a'', ''b'', ''c''] 0) = Some (fresh_canvas 2 2)
   \<and> wf_history (hist_state [''a'', ''b'', ''c''] 0)
   \<and> history (saveToHistory test_platform (hist_state [''a'', ''b'', ''c''] 0)) = [''a'', ''two'']
   \<and> historyIndex (saveToHistory test_platform (hist_state [''a'', ''b'', ''c''] 0)) = 1"
proof -
  have a: "canvasRef (hist_state [''a'', ''b'', ''c''] 0) = Some (fresh_canvas 2 2)"
    by (simp add: hist_state_def)
  have b: "wf_history (hist_state [''a'', ''b'', ''c''] 0)"
    by (simp add: hist_state_def wf_history_def)
  have c: "toDataURL test_platform (bitmap (fresh_canvas 2 2)) = ''two''"
    by (simp add: test_platform_def fresh_canvas_def solid_def)
  have d: "history (hist_state [''a'', ''b'', ''c''] 0) = [''a'', ''b'', ''c'']"
          "historyIndex (hist_state [''a'', ''b'', ''c''] 0) = 0"
    by (simp_all add: hist_state_def)
  show ?thesis
    using checkpoint_truncates_then_appends [OF a b, of test_platform] a b by (simp add: c d)
qed

section \<open>History: undo and redo\<close>

text \<open>
  Claim C2. Undo with the cursor at 0 or below (the empty log has cursor \<open>-1\<close>) and redo
  with the cursor at the last entry start no load and return the state as it was: cursor,
  entries and canvas are unchanged, and the handlers have no error outcome. Otherwise undo
  moves the cursor down by one, redo up by one, and each loads the entry at the new cursor.
\<close>

theorem undo_redo_boundary_noop:
  assumes "wf_history s"
  shows "(historyIndex s \<le> 0 \<longrightarrow> handleUndo s = (s, NoLoad) \<and> undo P s = s)
       \<and> (int (length (history s)) - 1 \<le> historyIndex s \<longrightarrow>
            handleRedo s = (s, NoLoad) \<and> redo P s = s)
       \<and> (0 < historyIndex s \<longrightarrow>
            handleUndo s = (s\<lparr>historyIndex := historyIndex s - 1\<rparr>,
                            Load (Some (history s ! nat (historyIndex s - 1)))))
       \<and> (historyIndex s < int (length (history s)) - 1 \<longrightarrow>
            handleRedo s = (s\<lparr>historyIndex := historyIndex s + 1\<rparr>,
                            Load (Some (history s ! nat (historyIndex s + 1)))))"
  using assms
  by (auto simp: handleUndo_def handleRedo_def undo_def redo_def image_loaded_def
      wf_history_def js_index_def Let_def)


theorem undo_redo_boundary_noop_witness:
  "wf_history (hist_state [''a''] 0)
   \<and> handleUndo (hist_state [''a''] 0) = (hist_state [''a''] 0, NoLoad)
   \<and> handleRedo (hist_state [''a''] 0) = (hist_state [''a''] 0, NoLoad)
   \<and> undo test_platform (hist_state [''a''] 0) = hist_state [''a''] 0
   \<and> redo test_platform (hist_state [''a''] 0) = hist_state [''a''] 0
   \<and> wf_history (hist_state [''a'', ''b'', ''c''] 1)
   \<and> handleUndo (hist_state [''a'', ''b'', ''c''] 1) = (hist_state [''a'', ''b'', ''c''] 0, Load (Some ''a''))
   \<and> handleRedo (hist_state [''a'', ''b'', ''c''] 1) = (hist_state [''a'', ''b'', ''c''] 2, Load (Some ''c''))"
proof -
  have a: "wf_history (hist_state [''a''] 0)"
    by (simp add: hist_state_def wf_history_def)
  have b: "wf_history (hist_state [''a'', ''b'', ''c''] 1)"
    by (simp add: hist_state_def wf_history_def)
  show ?thesis
    using undo_redo_boundary_noop [OF a, of test_platform] undo_redo_boundary_noop [OF b, of test_platform] a b
    by (simp add: hist_state_def)
qed

lemma checkpoints_snoc:
  "checkpoints P (cs @ [c]) s = saveToHistory P (canvas_becomes c (checkpoints P cs s))"
  by (simp add: checkpoints_def)

lemma checkpoints_log:
  assumes "canvasRef s = Some cv" and "historyIndex s = int (length (history s)) - 1"
  shows "history (checkpoints P cs s) = history s @ map (toDataURL P) cs
       \<and> historyIndex (checkpoints P cs s) = int (length (history s) + length cs) - 1
       \<and> (\<exists>cv'. canvasRef (checkpoints P cs s) = Some cv' \<and> (cs \<noteq> [] \<longrightarrow> bitmap cv' = last cs))"
proof (induction cs rule: rev_induct)
  case Nil
  show ?case using assms by (simp add: checkpoints_def)
next
  case (snoc c cs)
  then obtain cv' where cv': "canvasRef (checkpoints P cs s) = Some cv'" by blast
  from snoc cv' show ?case
    by (simp add: checkpoints_snoc saveToHistory_def canvas_becomes_def Let_def)
qed

lemma image_loaded_frame:
  "history (image_loaded P l s) = history s \<and> historyIndex (image_loaded P l s) = historyIndex s"
  by (simp add: image_loaded_def onload_def split: image_load.splits option.splits)

lemma image_loaded_canvas:
  assumes "canvasRef s = Some cv"
  shows "\<exists>cv'. canvasRef (image_loaded P l s) = Some cv'
            \<and> width (bitmap cv') = width (bitmap cv) \<and> height (bitmap cv') = height (bitmap cv)"
  using assms
  by (simp add: image_loaded_def onload_def drawImage_img_def clearRect_def paint_def
      split: image_load.splits option.splits)

lemma undo_log:
  "history (undo P s) = history s
   \<and> historyIndex (undo P s) = (if 0 < historyIndex s then historyIndex s - 1 else historyIndex s)"
  by (simp add: undo_def handleUndo_def Let_def image_loaded_frame)

lemma redo_log:
  "history (redo P s) = history s
   \<and> historyIndex (redo P s) =
       (if historyIndex s < int (length (history s)) - 1 then historyIndex s + 1 else historyIndex s)"
  by (simp add: redo_def handleRedo_def Let_def image_loaded_frame)

lemma undo_canvas:
  assumes "canvasRef s = Some cv"
  shows "\<exists>cv'. canvasRef (undo P s) = Some cv'
            \<and> width (bitmap cv') = width (bitmap cv) \<and> height (bitmap cv') = height (bitmap cv)"
proof -
  have "canvasRef (fst (handleUndo s)) = Some cv"
    using assms by (simp add: handleUndo_def Let_def)
  from image_loaded_canvas [OF this, of P "snd (handleUndo s)"] show ?thesis
    by (simp add: undo_def split_beta)
qed

lemma redo_canvas:
  assumes "canvasRef s = Some cv"
  shows "\<exists>cv'. canvasRef (redo P s) = Some cv'
            \<and> width (bitmap cv') = width (bitmap cv) \<and> height (bitmap cv') = height (bitmap cv)"
proof -
  have "canvasRef (fst (handleRedo s)) = Some cv"
    using assms by (simp add: handleRedo_def Let_def)
  from image_loaded_canvas [OF this, of P "snd (handleRedo s)"] show ?thesis
    by (simp add: redo_def split_beta)
qed

lemma undo_funpow:
  assumes "canvasRef s = Some cv" and "int k \<le> historyIndex s"
  shows "history ((undo P ^^ k) s) = history s
       \<and> historyIndex ((undo P ^^ k) s) = historyIndex s - int k
       \<and> (\<exists>cv'. canvasRef ((undo P ^^ k) s) = Some cv'
            \<and> width (bitmap cv') = width (bitmap cv) \<and> height (bitmap cv') = height (bitmap cv))"
  using assms(2)
proof (induction k)
  case 0
  show ?case using assms(1) by simp
next
  case (Suc k)
  then have ih: "history ((undo P ^^ k) s) = history s"
    "historyIndex ((undo P ^^ k) s) = historyIndex s - int k" by simp_all
  from Suc obtain c1 where c1: "canvasRef ((undo P ^^ k) s) = Some c1"
    "width (bitmap c1) = width (bitmap cv)" "height (bitmap c1) = height (bitmap cv)"
    by auto
  from undo_canvas [OF c1(1), of P] c1 ih Suc.prems show ?case
    by (auto simp: undo_log)
qed

lemma redo_funpow:
  assumes "canvasRef s = Some cv" and "historyIndex s + int k \<le> int (length (history s)) - 1"
  shows "history ((redo P ^^ k) s) = history s
       \<and> historyIndex ((redo P ^^ k) s) = historyIndex s + int k
       \<and> (\<exists>cv'. canvasRef ((redo P ^^ k) s) = Some cv'
            \<and> width (bitmap cv') = width (bitmap cv) \<and> height (bitmap cv') = height (bitmap cv))"
  using assms(2)
proof (induction k)
  case 0
  show ?case using assms(1) by simp
next
  case (Suc k)
  then have ih: "history ((redo P ^^ k) s) = history s"
    "historyIndex ((redo P ^^ k) s) = historyIndex s + int k" by simp_all
  from Suc obtain c1 where c1: "canvasRef ((redo P ^^ k) s) = Some c1"
    "width (bitmap c1) = width (bitmap cv)" "height (bitmap c1) = height (bitmap cv)"
    by auto
  from redo_canvas [OF c1(1), of P] c1 ih Suc.prems show ?case
    by (auto simp: redo_log)
qed

text \<open>The last redo of a round trip shows the entry it lands on.\<close>

lemma redo_shows_entry:
  assumes cv: "canvasRef s = Some cv"
    and idx: "0 \<le> historyIndex s + 1" "historyIndex s + 1 < int (length (history s))"
    and entry: "history s ! nat (historyIndex s + 1) = toDataURL P c"
    and dims: "width (bitmap cv) = width c" "height (bitmap cv) = height c"
    and ll: "lossless_on P c"
  shows "\<exists>cv'. canvasRef (redo P s) = Some cv' \<and> same_content (bitmap cv') c"
proof -
  from ll obtain img where img: "decodeImage P (toDataURL P c) = Some img" "same_content img c"
    by (auto simp: lossless_on_def split: option.splits)
  from ll have px: "\<And>i j. i < width c \<Longrightarrow> j < height c \<Longrightarrow>
      source_over P (pix c i j) transparent_black = pix c i j"
    by (simp add: lossless_on_def)
  from img(2) have wi: "width img = width c" "height img = height c"
    and pi: "\<And>i j. i < width c \<Longrightarrow> j < height c \<Longrightarrow> pix img i j = pix c i j"
    by (auto simp: same_content_def pixel_at_def fun_eq_iff split: if_splits)
  have r: "redo P s = onload P img (s\<lparr>historyIndex := historyIndex s + 1\<rparr>)"
    using idx entry img(1)
    by (simp add: redo_def handleRedo_def Let_def js_index_def image_loaded_def)
  show ?thesis
    unfolding r using cv dims wi
    by (auto simp: onload_def drawImage_img_def clearRect_def paint_def in_rect_def
        same_content_def pixel_at_def fun_eq_iff px pi)
qed


text \<open>
  Claim C3. After checkpoints \<open>C1 .. Cn\<close> pushed with the cursor at the tip, \<open>n - 1\<close> undos
  followed by \<open>n - 1\<close> redos leave the cursor on the entry of \<open>Cn\<close>, the log as the pushes
  left it, and the canvas with the pixel content of \<open>Cn\<close>, for a \<open>Cn\<close> that survives the
  browser's encoding, decoding and drawing.
\<close>

theorem undo_redo_round_trip:
  assumes cv: "canvasRef s = Some cv"
    and tip: "historyIndex s = int (length (history s)) - 1"
    and ne: "cs \<noteq> []"
    and ll: "lossless_on P (last cs)"
  shows "let s' = (redo P ^^ (length cs - 1)) ((undo P ^^ (length cs - 1)) (checkpoints P cs s))
         in history s' = history s @ map (toDataURL P) cs
          \<and> historyIndex s' = int (length (history s')) - 1
          \<and> js_index (history s') (historyIndex s') = Some (toDataURL P (last cs))
          \<and> (\<exists>cv'. canvasRef s' = Some cv' \<and> same_content (bitmap cv') (last cs))"
proof -
  define H where "H = history s @ map (toDataURL P) cs"
  define t0 where "t0 = checkpoints P cs s"
  define k where "k = length cs - 1"
  define t1 where "t1 = (undo P ^^ k) t0"
  have n: "length cs = Suc k" using ne by (cases cs) (simp_all add: k_def)
  have lenH: "length H = length (history s) + Suc k" by (simp add: H_def n)
  have lastH: "H ! (length (history s) + k) = toDataURL P (last cs)"
    using ne n by (simp add: H_def nth_append last_conv_nth nth_map)
  from checkpoints_log [OF cv tip, of P cs] ne obtain c0 where
    t0: "history t0 = H" "historyIndex t0 = int (length (history s) + length cs) - 1"
      "canvasRef t0 = Some c0" "bitmap c0 = last cs"
    by (auto simp: t0_def H_def)
  have "int k \<le> historyIndex t0" using t0(2) n by simp
  from undo_funpow [OF t0(3) this, of P] obtain c1 where
    t1: "history t1 = H" "historyIndex t1 = int (length (history s))"
      "canvasRef t1 = Some c1" "width (bitmap c1) = width (last cs)"
      "height (bitmap c1) = height (last cs)"
    using t0 n by (auto simp: t1_def)
  have goal: "history ((redo P ^^ k) t1) = H
      \<and> historyIndex ((redo P ^^ k) t1) = int (length H) - 1
      \<and> js_index H (int (length H) - 1) = Some (toDataURL P (last cs))
      \<and> (\<exists>cv'. canvasRef ((redo P ^^ k) t1) = Some cv' \<and> same_content (bitmap cv') (last cs))"
  proof (cases k)
    case 0
    then have "t1 = t0" by (simp add: t1_def)
    moreover have "int (length H) - 1 = int (length (history s) + k)" using lenH by simp
    ultimately show ?thesis using 0 t0 lenH lastH n
      by (simp add: js_index_def same_content_def del: of_nat_add)
  next
    case (Suc m)
    define t2 where "t2 = (redo P ^^ m) t1"
    have "historyIndex t1 + int m \<le> int (length (history t1)) - 1"
      using t1 lenH Suc by simp
    from redo_funpow [OF t1(3) this, of P] obtain c2 where
      t2: "history t2 = H" "historyIndex t2 = int (length (history s)) + int m"
        "canvasRef t2 = Some c2" "width (bitmap c2) = width (last cs)"
        "height (bitmap c2) = height (last cs)"
      using t1 by (auto simp: t2_def)
    have i1: "0 \<le> historyIndex t2 + 1" using t2(2) by simp
    have i2: "historyIndex t2 + 1 < int (length (history t2))"
      using t2 lenH Suc by simp
    have "nat (historyIndex t2 + 1) = length (history s) + k"
      using t2(2) Suc by simp
    then have e: "history t2 ! nat (historyIndex t2 + 1) = toDataURL P (last cs)"
      using lastH t2(1) by simp
    from redo_shows_entry [OF t2(3) i1 i2 e t2(4) t2(5) ll]
    obtain c3 where c3: "canvasRef (redo P t2) = Some c3" "same_content (bitmap c3) (last cs)"
      by blast
    have r: "(redo P ^^ k) t1 = redo P t2" by (simp add: Suc t2_def)
    have "int (length H) - 1 = int (length (history s) + k)" using lenH by simp
    then have "js_index H (int (length H) - 1) = Some (toDataURL P (last cs))"
      using lenH lastH by (simp add: js_index_def del: of_nat_add)
    moreover have "historyIndex (redo P t2) = int (length H) - 1"
      using i2 t2 lenH Suc by (simp add: redo_log)
    moreover have "history (redo P t2) = H" using t2 by (simp add: redo_log)
    ultimately show ?thesis using c3 unfolding r by blast
  qed
  then show ?thesis
    unfolding Let_def t1_def t0_def k_def H_def [symmetric] by simp
qed

theorem undo_redo_round_trip_witness:
  "canvasRef (hist_state [] (- 1)) = Some (fresh_canvas 2 2)
   \<and> lossless_on test_platform white2
   \<and> (let s' = (redo test_platform ^^ 2) ((undo test_platform ^^ 2)
                 (checkpoints test_platform [white1, white1, white2] (hist_state [] (- 1))))
      in history s' = [''one'', ''one'', ''two''] \<and> historyIndex s' = 2
       \<and> (\<exists>cv'. canvasRef s' = Some cv' \<and> same_content (bitmap cv') white2))"
proof -
  have a: "canvasRef (hist_state [] (- 1)) = Some (fresh_canvas 2 2)"
    by (simp add: hist_state_def)
  have b: "historyIndex (hist_state [] (- 1)) = int (length (history (hist_state [] (- 1)))) - 1"
    by (simp add: hist_state_def)
  have c: "[white1, white1, white2] \<noteq> []" by simp
  have d: "lossless_on test_platform white2"
    by (simp add: lossless_on_def test_platform_def white2_def solid_def same_content_def
        source_over_def opaque_white_def)
  have e: "lossless_on test_platform (last [white1, white1, white2])"
    using d by simp
  have f: "toDataURL test_platform white1 = ''one''" "toDataURL test_platform white2 = ''two''"
    by (simp_all add: test_platform_def white1_def white2_def solid_def)
  have g: "history (hist_state [] (- 1)) = []" by (simp add: hist_state_def)
  show ?thesis
    using undo_redo_round_trip [OF a b c e] a d
    by (simp add: f g Let_def numeral_2_eq_2 del: funpow.simps)
qed

section \<open>Canvas operations: what they keep\<close>

lemma css_white: "css_color ''#FFFFFF'' = Some opaque_white"
  by (simp add: css_color_def hex_byte_def hex_digit_def opaque_white_def)

lemma css_clear: "css_color ''rgba(255, 255, 255, 0)'' = Some (RGBA 255 255 255 0)"
  by (simp add: css_color_def)

lemma paint_dims [simp]: "width (paint f x0 y0 w h b) = width b" "height (paint f x0 y0 w h b) = height b"
  by (simp_all add: paint_def)

lemma drawImage_img_dims [simp]:
  "width (bitmap (drawImage_img P img dx dy cv)) = width (bitmap cv)"
  "height (bitmap (drawImage_img P img dx dy cv)) = height (bitmap cv)"
  by (simp_all add: drawImage_img_def)

lemma set_strokeStyle_frame [simp]:
  "path (set_strokeStyle c cv) = path cv" "bitmap (set_strokeStyle c cv) = bitmap cv"
  by (simp_all add: set_strokeStyle_def split: option.splits)

lemma set_lineWidth_frame [simp]:
  "path (set_lineWidth v cv) = path cv" "bitmap (set_lineWidth v cv) = bitmap cv"
  by (simp_all add: set_lineWidth_def)

lemma stroke_path [simp]: "path (stroke P cv) = path cv"
  by (simp add: stroke_def)

lemma white_background_dims [simp]:
  "width (bitmap (white_background P cv)) = width (bitmap cv)"
  "height (bitmap (white_background P cv)) = height (bitmap cv)"
  by (simp_all add: white_background_def Let_def fillRect_def set_fillStyle_def clearRect_def css_white)

lemma white_background_pixels:
  "pixel_at (bitmap (white_background P cv)) i j =
     (if i < width (bitmap cv) \<and> j < height (bitmap cv) then Some opaque_white else None)"
  by (simp add: white_background_def Let_def fillRect_def set_fillStyle_def clearRect_def css_white
      pixel_at_def paint_def in_rect_def source_over_def opaque_white_def)

section \<open>The state after mounting\<close>

lemma ready_layers:
  "layers ready_state = [\<lparr>layer_id = ''layer-1'', layer_name = ''Layer 1'', visible = True,
                            layer_canvas = Some MainCanvas\<rparr>]"
  by (simp add: ready_state_def initEffect_def mountCanvas_def initial_state_def
      saveToHistory_def Let_def)

lemma ready_canvas:
  "\<exists>cv. canvasRef ready_state = Some cv \<and> width (bitmap cv) = 2 \<and> height (bitmap cv) = 2"
  by (simp add: ready_state_def initEffect_def mountCanvas_def initial_state_def
      saveToHistory_def Let_def set_height_def set_width_def fresh_canvas_def solid_def
      set_fillStyle_def css_white fillRect_def)

lemma ready_canvas_path:
  "\<exists>cv. canvasRef ready_state = Some cv \<and> width (bitmap cv) = 2 \<and> height (bitmap cv) = 2
        \<and> path cv = []"
  by (simp add: ready_state_def initEffect_def mountCanvas_def initial_state_def
      saveToHistory_def Let_def set_height_def set_width_def fresh_canvas_def solid_def
      set_fillStyle_def css_white fillRect_def)

lemma ready_mode: "drawingMode ready_state = Pen" "isDrawing ready_state = False"
  by (simp_all add: ready_state_def initEffect_def mountCanvas_def initial_state_def
      saveToHistory_def Let_def)

section \<open>Layers\<close>

lemma draw_layers_filter: "draw_layers P ls cv = draw_layers P (filter visible ls) cv"
  by (induction ls arbitrary: cv) (auto split: option.splits sum.splits)

lemma draw_layers_total:
  assumes "nonempty (bitmap cv)" and "list_all layer_drawable (filter visible ls)"
  shows "\<exists>cv'. draw_layers P ls cv = Inr cv' \<and> width (bitmap cv') = width (bitmap cv)
           \<and> height (bitmap cv') = height (bitmap cv)"
  using assms
proof (induction ls arbitrary: cv)
  case Nil
  then show ?case by simp
next
  case (Cons l ls)
  show ?case
  proof (cases "visible l \<and> layer_canvas l \<noteq> None")
    case False
    have "list_all layer_drawable (filter visible ls)"
      using Cons.prems(2) by (simp split: if_splits)
    from Cons.IH [OF Cons.prems(1) this] False show ?thesis
      by (auto split: option.splits)
  next
    case True
    then obtain r where r: "layer_canvas l = Some r" by auto
    have src: "nonempty (source_bitmap r cv)"
      using Cons.prems True r
      by (cases r) (auto simp: source_bitmap_def layer_drawable_def)
    let ?cv1 = "drawImage_img P (source_bitmap r cv) 0 0 cv"
    have d: "drawImage_canvas P (source_bitmap r cv) 0 0 cv = Inr ?cv1"
      using src by (simp add: drawImage_canvas_def nonempty_def)
    have "nonempty (bitmap ?cv1)" using Cons.prems(1) by (simp add: nonempty_def)
    moreover have "list_all layer_drawable (filter visible ls)"
      using Cons.prems(2) by (simp split: if_splits)
    ultimately obtain cv' where "draw_layers P ls ?cv1 = Inr cv'"
      "width (bitmap cv') = width (bitmap ?cv1)" "height (bitmap cv') = height (bitmap ?cv1)"
      using Cons.IH by blast
    then show ?thesis using True r d by simp
  qed
qed

lemma redrawCanvas_total:
  assumes "layers_drawable s"
  shows "\<exists>s1. redrawCanvas P s = Inr s1 \<and> layers s1 = layers s
           \<and> activeLayerIndex s1 = activeLayerIndex s"
proof (cases "canvasRef s")
  case None
  then show ?thesis by (simp add: redrawCanvas_def)
next
  case (Some cv)
  with assms have "nonempty (bitmap (white_background P cv))"
    "list_all layer_drawable (filter visible (layers s))"
    by (simp_all add: layers_drawable_def nonempty_def)
  from draw_layers_total [OF this, of P] obtain cv' where
    "draw_layers P (layers s) (white_background P cv) = Inr cv'" by blast
  with Some show ?thesis by (simp add: redrawCanvas_def composite_def)
qed

lemma remove_at_valid:
  assumes "i < length xs"
  shows "remove_at (int i) xs = take i xs @ drop (Suc i) xs"
proof -
  have "\<And>k. map fst (filter (\<lambda>(l, j). int j \<noteq> int (k + i)) (zip xs [k..<k + length xs]))
        = take i xs @ drop (Suc i) xs" if "i < length xs" for xs :: "'a list" and i
    using that
  proof (induction xs arbitrary: i)
    case Nil
    then show ?case by simp
  next
    case (Cons x xs)
    show ?case
    proof (cases i)
      case 0
      have "filter (\<lambda>(l, j). j \<noteq> k) (zip xs [Suc k..<Suc (k + length xs)]) = zip xs [Suc k..<Suc (k + length xs)]" for k
        by (rule filter_True) (auto dest!: set_zip_rightD)
      then show ?thesis using 0 by (simp add: upt_conv_Cons del: upt_Suc)
    next
      case (Suc m)
      with Cons.prems have m: "m < length xs" by simp
      from Cons.IH [OF m, of "Suc k"] Suc show ?thesis
        by (simp add: upt_conv_Cons del: upt_Suc)
    qed
  qed
  from this [OF assms, of 0] show ?thesis by (simp add: remove_at_def)
qed

lemma addLayer_ids:
  "map layer_id (layers (addLayer P s)) =
     map layer_id (layers s) @ [''layer-'' @ string_of_nat (length (layers s) + 1)]"
  by (simp add: addLayer_def Let_def)

lemma addLayer_frame:
  "canvasRef (addLayer P s) = canvasRef s"
  "activeLayerIndex (addLayer P s) = int (length (layers s))"
  by (simp_all add: addLayer_def Let_def)

lemma addLayer_drawable:
  assumes "layers_drawable s"
  shows "layers_drawable (addLayer P s)"
proof (cases "canvasRef s")
  case None
  then show ?thesis by (simp add: layers_drawable_def addLayer_def Let_def)
next
  case (Some cv)
  with assms show ?thesis
    by (simp add: layers_drawable_def addLayer_def Let_def layer_drawable_def nonempty_def
        fillRect_def set_fillStyle_def css_clear set_height_def set_width_def fresh_canvas_def solid_def)
qed

lemma ready_drawable: "layers_drawable ready_state"
  using ready_canvas
  by (auto simp: layers_drawable_def ready_layers layer_drawable_def nonempty_def)

lemma two_layers_ids: "map layer_id (layers two_layers) = [''layer-1'', ''layer-2'']"
  by (simp add: two_layers_def addLayer_ids ready_layers string_of_nat.simps)

text \<open>
  Claim C4, as stated, fails: with exactly one layer \<^verbatim>\<open>deleteLayer\<close> raises nothing. Its
  guard \<^verbatim>\<open>layers.length > 1\<close> is false, the body is skipped and the handler returns
  normally with the state as it was.
\<close>

theorem deleteLayer_last_layer_is_silent_noop:
  "length (layers ready_state) = 1
   \<and> deleteLayer test_platform 0 ready_state = Inr ready_state"
  by (simp add: deleteLayer_def ready_layers)

text \<open>
  Claim C4, amended. On a stack of at most one layer \<^verbatim>\<open>deleteLayer\<close> is a silent no-op:
  no error, stack and active index unchanged. On a stack of two or more layers, with an
  index and an active index inside the stack and canvases that can be redrawn, it removes
  exactly the layer at the index, and the active index becomes \<open>max 0 (active - 1)\<close> when
  it was at or above the index and stays otherwise, which is inside the shortened stack.
\<close>

theorem deleteLayer_guard_and_clamp:
  "(length (layers s) \<le> 1 \<longrightarrow> deleteLayer P index s = Inr s)
   \<and> (1 < length (layers s) \<and> 0 \<le> index \<and> index < int (length (layers s))
        \<and> 0 \<le> activeLayerIndex s \<and> activeLayerIndex s < int (length (layers s))
        \<and> layers_drawable s \<longrightarrow>
      (\<exists>s'. deleteLayer P index s = Inr s'
         \<and> layers s' = take (nat index) (layers s) @ drop (nat index + 1) (layers s)
         \<and> length (layers s') = length (layers s) - 1
         \<and> activeLayerIndex s' =
             (if index \<le> activeLayerIndex s then max 0 (activeLayerIndex s - 1)
              else activeLayerIndex s)
         \<and> 0 \<le> activeLayerIndex s' \<and> activeLayerIndex s' < int (length (layers s'))))"
proof (intro conjI impI)
  assume "length (layers s) \<le> 1"
  then show "deleteLayer P index s = Inr s" by (simp add: deleteLayer_def)
next
  assume a: "1 < length (layers s) \<and> 0 \<le> index \<and> index < int (length (layers s))
        \<and> 0 \<le> activeLayerIndex s \<and> activeLayerIndex s < int (length (layers s))
        \<and> layers_drawable s"
  then obtain s1 where s1: "redrawCanvas P s = Inr s1"
    using redrawCanvas_total [of s P] by blast
  define i where "i = nat index"
  have i: "index = int i" "i < length (layers s)" using a by (auto simp: i_def nat_less_iff)
  have rm: "remove_at index (layers s) = take i (layers s) @ drop (Suc i) (layers s)"
    using remove_at_valid [OF i(2)] i(1) by simp
  have len: "length (take i (layers s) @ drop (Suc i) (layers s)) = length (layers s) - 1"
    using i(2) by simp
  show "\<exists>s'. deleteLayer P index s = Inr s'
         \<and> layers s' = take (nat index) (layers s) @ drop (nat index + 1) (layers s)
         \<and> length (layers s') = length (layers s) - 1
         \<and> activeLayerIndex s' =
             (if index \<le> activeLayerIndex s then max 0 (activeLayerIndex s - 1)
              else activeLayerIndex s)
         \<and> 0 \<le> activeLayerIndex s' \<and> activeLayerIndex s' < int (length (layers s'))"
    using a s1 rm len i
    by (auto simp: deleteLayer_def i_def [symmetric] simp del: length_append length_take length_drop)
qed

theorem deleteLayer_guard_and_clamp_witness:
  "length (layers ready_state) \<le> 1
   \<and> deleteLayer test_platform 0 ready_state = Inr ready_state
   \<and> 1 < length (layers two_layers) \<and> activeLayerIndex two_layers = 1
   \<and> layers_drawable two_layers
   \<and> map layer_id (result_layers (deleteLayer test_platform 0 two_layers)) = [''layer-2'']
   \<and> result_active (deleteLayer test_platform 0 two_layers) = Some 0"
proof -
  have len: "length (layers two_layers) = 2"
    using arg_cong [OF two_layers_ids, of length] by simp
  have act: "activeLayerIndex two_layers = 1"
    by (simp add: two_layers_def addLayer_frame ready_layers)
  have dr: "layers_drawable two_layers"
    unfolding two_layers_def by (rule addLayer_drawable [OF ready_drawable])
  have ids: "map layer_id (drop (Suc 0) (layers two_layers)) = [''layer-2'']"
    using two_layers_ids by (simp add: drop_map [symmetric])
  show ?thesis
    using deleteLayer_guard_and_clamp [of ready_state test_platform 0]
      deleteLayer_guard_and_clamp [of two_layers test_platform 0] len act dr ids
    by (auto simp: ready_layers result_layers_def result_active_def)
qed

text \<open>
  Claim C5 asks for pairwise distinct layer ids in every stack reached from the initial
  one by \<^verbatim>\<open>addLayer\<close> and \<^verbatim>\<open>deleteLayer\<close>. The id of a new layer is made from the
  current length, so after add, delete of the first layer, add, the stack holds the id
  \<^verbatim>\<open>layer-2\<close> twice.
\<close>

theorem addLayer_reuses_id_after_delete:
  "map layer_id (result_layers
     (then_do (deleteLayer test_platform 0 (addLayer test_platform ready_state))
        (\<lambda>s. Inr (addLayer test_platform s)))) = [''layer-2'', ''layer-2'']"
proof -
  have len: "length (layers two_layers) = 2"
    using arg_cong [OF two_layers_ids, of length] by simp
  have act: "activeLayerIndex two_layers = 1"
    by (simp add: two_layers_def addLayer_frame ready_layers)
  have dr: "layers_drawable two_layers"
    unfolding two_layers_def by (rule addLayer_drawable [OF ready_drawable])
  from redrawCanvas_total [OF dr, of test_platform] obtain s1 where
    s1: "redrawCanvas test_platform two_layers = Inr s1" by blast
  have rm: "remove_at 0 (layers two_layers) = drop (Suc 0) (layers two_layers)"
    using remove_at_valid [of 0 "layers two_layers"] len by simp
  have ids: "map layer_id (drop (Suc 0) (layers two_layers)) = [''layer-2'']"
    using two_layers_ids by (simp add: drop_map [symmetric])
  have "length (drop (Suc 0) (layers two_layers)) = Suc 0" using len by simp
  then show ?thesis
    using s1 rm ids len
    by (simp add: then_do_def deleteLayer_def result_layers_def addLayer_ids
        two_layers_def [symmetric] string_of_nat.simps)
qed

section \<open>The compositor\<close>

lemma draw_layers_snoc:
  "draw_layers P (ls @ [l]) cv =
     (case draw_layers P ls cv of
        Inl e \<Rightarrow> Inl e
      | Inr out \<Rightarrow>
          if visible l then
            (case layer_canvas l of
               None \<Rightarrow> Inr out
             | Some r \<Rightarrow> drawImage_canvas P (source_bitmap r out) 0 0 out)
          else Inr out)"
  by (induction ls arbitrary: cv) (auto split: option.splits sum.splits)

lemma drawImage_canvas_dims:
  "drawImage_canvas P src dx dy cv = Inr cv' \<Longrightarrow>
     width (bitmap cv') = width (bitmap cv) \<and> height (bitmap cv') = height (bitmap cv)"
  by (auto simp: drawImage_canvas_def split: if_splits)

lemma draw_layers_dims:
  "draw_layers P ls cv = Inr cv' \<Longrightarrow>
     width (bitmap cv') = width (bitmap cv) \<and> height (bitmap cv') = height (bitmap cv)"
proof (induction ls arbitrary: cv)
  case Nil
  then show ?case by simp
next
  case (Cons l ls)
  show ?case
  proof (cases "visible l")
    case False
    with Cons show ?thesis by simp
  next
    case True
    show ?thesis
    proof (cases "layer_canvas l")
      case None
      with True Cons show ?thesis by simp
    next
      case (Some r)
      with True Cons.prems obtain c1 where
        c1: "drawImage_canvas P (source_bitmap r cv) 0 0 cv = Inr c1" "draw_layers P ls c1 = Inr cv'"
        by (auto split: sum.splits)
      from Cons.IH [OF c1(2)] drawImage_canvas_dims [OF c1(1)] show ?thesis by simp
    qed
  qed
qed

lemma composite_dims:
  "composite P ls cv = Inr out \<Longrightarrow>
     width (bitmap out) = width (bitmap cv) \<and> height (bitmap out) = height (bitmap cv)"
  unfolding composite_def by (drule draw_layers_dims) simp

lemma drawImage_canvas_pixels:
  assumes "nonempty src"
  shows "\<exists>out'. drawImage_canvas P src 0 0 out = Inr out'
           \<and> (\<forall>i j. pixel_at (bitmap out') i j =
                 (if i < width (bitmap out) \<and> j < height (bitmap out)
                  then Some (if i < width src \<and> j < height src
                             then source_over P (pix src i j) (pix (bitmap out) i j)
                             else pix (bitmap out) i j)
                  else None))"
  using assms
  by (simp add: drawImage_canvas_def nonempty_def drawImage_img_def paint_def in_rect_def pixel_at_def)

lemma solid_layer_facts:
  "visible (solid_layer v c) = v"
  "layer_canvas (solid_layer v c) = Some (Offscreen ((fresh_canvas 2 2)\<lparr>bitmap := solid 2 2 c\<rparr>))"
  by (simp_all add: solid_layer_def)

lemma solid_source:
  "source_bitmap (Offscreen ((fresh_canvas 2 2)\<lparr>bitmap := solid 2 2 c\<rparr>)) out = solid 2 2 c"
  "nonempty (solid 2 2 c)" "width (solid 2 2 c) = 2" "height (solid 2 2 c) = 2"
  "pix (solid 2 2 c) i j = c"
  by (simp_all add: source_bitmap_def nonempty_def solid_def)

text \<open>
  Claim C6. \<^verbatim>\<open>redrawCanvas\<close> starts from a background whose every pixel is opaque white
  (the output for the empty stack) and walks the stack from the bottom: the output for a
  stack with one more layer on top is the output for the stack below with that layer's
  canvas drawn over it when the layer is visible, and is the output for the stack below
  when it is hidden. Drawing a layer puts, at every pixel the layer's canvas covers, its
  pixel source-over the pixel composed so far, and leaves the other pixels. So the output
  is the walk over the visible layers alone, is the same for two stacks with the same
  visible layers whatever their hidden layers hold, and is the white background when no
  layer is visible.
\<close>

theorem composite_draws_visible_layers_on_white:
  "composite P [] cv = Inr (white_background P cv)
   \<and> width (bitmap (white_background P cv)) = width (bitmap cv)
   \<and> height (bitmap (white_background P cv)) = height (bitmap cv)
   \<and> (\<forall>i j. pixel_at (bitmap (white_background P cv)) i j =
         (if i < width (bitmap cv) \<and> j < height (bitmap cv) then Some opaque_white else None))
   \<and> composite P (ls @ [l]) cv =
       (case composite P ls cv of
          Inl e \<Rightarrow> Inl e
        | Inr out \<Rightarrow>
            if visible l then
              (case layer_canvas l of
                 None \<Rightarrow> Inr out
               | Some r \<Rightarrow> drawImage_canvas P (source_bitmap r out) 0 0 out)
            else Inr out)
   \<and> (composite P ls cv = Inr out \<and> visible l \<and> layer_canvas l = Some r
        \<and> nonempty (source_bitmap r out) \<longrightarrow>
        (\<exists>out'. composite P (ls @ [l]) cv = Inr out'
           \<and> (\<forall>i j. pixel_at (bitmap out') i j =
                 (if i < width (bitmap cv) \<and> j < height (bitmap cv)
                  then Some (if i < width (source_bitmap r out) \<and> j < height (source_bitmap r out)
                             then source_over P (pix (source_bitmap r out) i j) (pix (bitmap out) i j)
                             else pix (bitmap out) i j)
                  else None))))
   \<and> (composite P ls cv = Inr out \<and> \<not> visible l \<longrightarrow> composite P (ls @ [l]) cv = Inr out)
   \<and> composite P ls cv = draw_layers P (filter visible ls) (white_background P cv)
   \<and> (\<forall>ls'. filter visible ls' = filter visible ls \<longrightarrow> composite P ls' cv = composite P ls cv)
   \<and> (filter visible ls = [] \<longrightarrow> composite P ls cv = Inr (white_background P cv))"
proof -
  have a: "composite P xs cv = draw_layers P (filter visible xs) (white_background P cv)" for xs
    unfolding composite_def by (rule draw_layers_filter)
  have b: "composite P ls' cv = composite P ls cv" if "filter visible ls' = filter visible ls" for ls'
    using that by (simp add: a)
  have c: "composite P ls cv = Inr (white_background P cv)" if "filter visible ls = []"
    using that by (simp add: a)
  have d: "\<forall>i j. pixel_at (bitmap (white_background P cv)) i j =
         (if i < width (bitmap cv) \<and> j < height (bitmap cv) then Some opaque_white else None)"
    by (simp add: white_background_pixels)
  have e: "\<forall>ls'. filter visible ls' = filter visible ls \<longrightarrow> composite P ls' cv = composite P ls cv"
    using b by blast
  have f: "filter visible ls = [] \<longrightarrow> composite P ls cv = Inr (white_background P cv)"
    using c by blast
  have g: "composite P [] cv = Inr (white_background P cv)"
    by (simp add: composite_def)
  have h: "composite P (ls @ [l]) cv =
       (case composite P ls cv of
          Inl e \<Rightarrow> Inl e
        | Inr out \<Rightarrow>
            if visible l then
              (case layer_canvas l of
                 None \<Rightarrow> Inr out
               | Some r \<Rightarrow> drawImage_canvas P (source_bitmap r out) 0 0 out)
            else Inr out)"
    unfolding composite_def by (rule draw_layers_snoc)
  have i: "composite P ls cv = Inr out \<and> visible l \<and> layer_canvas l = Some r
        \<and> nonempty (source_bitmap r out) \<longrightarrow>
        (\<exists>out'. composite P (ls @ [l]) cv = Inr out'
           \<and> (\<forall>i j. pixel_at (bitmap out') i j =
                 (if i < width (bitmap cv) \<and> j < height (bitmap cv)
                  then Some (if i < width (source_bitmap r out) \<and> j < height (source_bitmap r out)
                             then source_over P (pix (source_bitmap r out) i j) (pix (bitmap out) i j)
                             else pix (bitmap out) i j)
                  else None)))"
  proof
    assume p: "composite P ls cv = Inr out \<and> visible l \<and> layer_canvas l = Some r
        \<and> nonempty (source_bitmap r out)"
    then have dims: "width (bitmap out) = width (bitmap cv)" "height (bitmap out) = height (bitmap cv)"
      using composite_dims [of P ls cv out] by simp_all
    from p have ne: "nonempty (source_bitmap r out)" by simp
    from drawImage_canvas_pixels [OF ne, of P out] obtain out' where
      o: "drawImage_canvas P (source_bitmap r out) 0 0 out = Inr out'"
         "\<forall>i j. pixel_at (bitmap out') i j =
                 (if i < width (bitmap out) \<and> j < height (bitmap out)
                  then Some (if i < width (source_bitmap r out) \<and> j < height (source_bitmap r out)
                             then source_over P (pix (source_bitmap r out) i j) (pix (bitmap out) i j)
                             else pix (bitmap out) i j)
                  else None)"
      by blast
    have "composite P (ls @ [l]) cv = Inr out'"
      using p o(1) by (simp add: h)
    then show "\<exists>out'. composite P (ls @ [l]) cv = Inr out'
           \<and> (\<forall>i j. pixel_at (bitmap out') i j =
                 (if i < width (bitmap cv) \<and> j < height (bitmap cv)
                  then Some (if i < width (source_bitmap r out) \<and> j < height (source_bitmap r out)
                             then source_over P (pix (source_bitmap r out) i j) (pix (bitmap out) i j)
                             else pix (bitmap out) i j)
                  else None))"
      using o(2) dims by auto
  qed
  have j: "composite P ls cv = Inr out \<and> \<not> visible l \<longrightarrow> composite P (ls @ [l]) cv = Inr out"
    by (simp add: h)
  show ?thesis
    by (intro conjI) (rule a white_background_dims d e f g h i j)+
qed

theorem composite_draws_visible_layers_on_white_witness:
  "output_pixel (composite test_platform [solid_layer True opaque_red, solid_layer True opaque_blue]
                   (fresh_canvas 2 2)) 0 0 = Some opaque_blue
   \<and> output_pixel (composite test_platform [solid_layer True opaque_blue, solid_layer True opaque_red]
                   (fresh_canvas 2 2)) 0 0 = Some opaque_red
   \<and> output_pixel (composite test_platform [solid_layer True opaque_red, solid_layer False opaque_blue]
                   (fresh_canvas 2 2)) 0 0 = Some opaque_red
   \<and> output_pixel (composite test_platform [solid_layer False opaque_blue] (fresh_canvas 2 2)) 0 0
       = Some opaque_white"
proof -
  let ?P = test_platform and ?cv = "fresh_canvas 2 2"
  have dims: "width (bitmap ?cv) = 2" "height (bitmap ?cv) = 2"
    by (simp_all add: fresh_canvas_def solid_def)
  have so: "source_over ?P opaque_red d = opaque_red" "source_over ?P opaque_blue d = opaque_blue" for d
    by (simp_all add: source_over_def opaque_red_def opaque_blue_def)
  have top: "\<exists>out'. composite ?P (ls @ [solid_layer True c]) ?cv = Inr out'
                \<and> pixel_at (bitmap out') 0 0 = Some (source_over ?P c (pix (bitmap out) 0 0))"
    if "composite ?P ls ?cv = Inr out" for ls out c
  proof -
    let ?r = "Offscreen ((fresh_canvas 2 2)\<lparr>bitmap := solid 2 2 c\<rparr>)"
    have prem: "composite ?P ls ?cv = Inr out \<and> visible (solid_layer True c)
        \<and> layer_canvas (solid_layer True c) = Some ?r \<and> nonempty (source_bitmap ?r out)"
      using that by (simp add: solid_layer_facts solid_source)
    from composite_draws_visible_layers_on_white [of ?P ?cv ls "solid_layer True c" out ?r] prem
    obtain out' where o: "composite ?P (ls @ [solid_layer True c]) ?cv = Inr out'"
      and px: "\<forall>i j. pixel_at (bitmap out') i j =
                 (if i < width (bitmap ?cv) \<and> j < height (bitmap ?cv)
                  then Some (if i < width (source_bitmap ?r out) \<and> j < height (source_bitmap ?r out)
                             then source_over ?P (pix (source_bitmap ?r out) i j) (pix (bitmap out) i j)
                             else pix (bitmap out) i j)
                  else None)"
      by meson
    from px [rule_format, of 0 0] have
      "pixel_at (bitmap out') 0 0 = Some (source_over ?P c (pix (bitmap out) 0 0))"
      by (simp add: dims solid_source)
    with o show ?thesis by blast
  qed
  have base: "composite ?P [] ?cv = Inr (white_background ?P ?cv)"
    using composite_draws_visible_layers_on_white [of ?P ?cv] by blast
  have w: "pix (bitmap (white_background ?P ?cv)) 0 0 = opaque_white"
    using white_background_pixels [of ?P ?cv 0 0] dims by (simp add: pixel_at_def)
  have one: "\<exists>out. composite ?P [solid_layer True c] ?cv = Inr out
                \<and> pix (bitmap out) 0 0 = source_over ?P c opaque_white" for c
  proof -
    from top [OF base, of c] obtain out where o: "composite ?P [solid_layer True c] ?cv = Inr out"
      "pixel_at (bitmap out) 0 0 = Some (source_over ?P c opaque_white)"
      by (auto simp: w)
    from composite_dims [OF o(1)] dims o(2) have "pix (bitmap out) 0 0 = source_over ?P c opaque_white"
      by (simp add: pixel_at_def)
    with o(1) show ?thesis by blast
  qed
  have two: "output_pixel (composite ?P [solid_layer True c, solid_layer True c'] ?cv) 0 0
               = Some (source_over ?P c' (source_over ?P c opaque_white))" for c c'
  proof -
    from one [of c] obtain out where o: "composite ?P [solid_layer True c] ?cv = Inr out"
      "pix (bitmap out) 0 0 = source_over ?P c opaque_white" by blast
    from top [OF o(1), of c'] o(2) show ?thesis
      by (auto simp: output_pixel_def)
  qed
  have three: "output_pixel (composite ?P [solid_layer True c, solid_layer False c'] ?cv) 0 0
               = Some (source_over ?P c opaque_white)" for c c'
  proof -
    from one [of c] obtain out where o: "composite ?P [solid_layer True c] ?cv = Inr out"
      "pix (bitmap out) 0 0 = source_over ?P c opaque_white" by blast
    have prem: "composite ?P [solid_layer True c] ?cv = Inr out \<and> \<not> visible (solid_layer False c')"
      using o(1) by (simp add: solid_layer_facts)
    from composite_draws_visible_layers_on_white [of ?P ?cv "[solid_layer True c]" "solid_layer False c'" out] prem
    have "composite ?P ([solid_layer True c] @ [solid_layer False c']) ?cv = Inr out"
      by meson
    then show ?thesis
      using composite_dims [OF o(1)] dims o(2) by (simp add: output_pixel_def pixel_at_def)
  qed
  have four: "output_pixel (composite ?P [solid_layer False opaque_blue] ?cv) 0 0 = Some opaque_white"
  proof -
    have "filter visible [solid_layer False opaque_blue] = []"
      by (simp add: solid_layer_facts)
    with composite_draws_visible_layers_on_white [of ?P ?cv "[solid_layer False opaque_blue]"]
    have "composite ?P [solid_layer False opaque_blue] ?cv = Inr (white_background ?P ?cv)"
      by meson
    then show ?thesis
      using white_background_pixels [of ?P ?cv 0 0] dims by (simp add: output_pixel_def)
  qed
  show ?thesis
    using two [of opaque_red opaque_blue] two [of opaque_blue opaque_red]
      three [of opaque_red opaque_blue] four
    by (simp add: so)
qed

section \<open>Resizing\<close>

text \<open>
  Claim C9, as stated, fails: a white canvas of two by two pixels resized to three by two
  keeps its white pixels, and the new pixel at column 2 is transparent black, not white.
\<close>

theorem resize_exposes_transparent_pixels:
  "canvas_pixel (Inr ready_state) 0 0 = Some opaque_white
   \<and> canvas_pixel (handleResize (Some (3, 2)) ready_state) 0 0 = Some opaque_white
   \<and> canvas_pixel (handleResize (Some (3, 2)) ready_state) 2 0 = Some transparent_black
   \<and> transparent_black \<noteq> opaque_white"
  by (simp add: canvas_pixel_def result_canvas_def pixel_at_def handleResize_def getImageData_def
      putImageData_def
      ready_state_def initEffect_def mountCanvas_def initial_state_def
      saveToHistory_def Let_def set_height_def set_width_def fresh_canvas_def solid_def
      set_fillStyle_def css_white fillRect_def paint_def in_rect_def source_over_def opaque_white_def
      transparent_black_def)

text \<open>
  Claim C9, amended. Resizing a canvas that is not empty to \<open>w\<close> by \<open>h\<close> gives a bitmap of
  that size in which every pixel of the overlapping top-left region is the old pixel and
  every newly exposed pixel is transparent black, the state an assignment to a dimension
  resets the bitmap to.
\<close>

theorem resize_keeps_overlap_clears_rest:
  assumes "canvasRef s = Some cv" and "0 < width (bitmap cv)" and "0 < height (bitmap cv)"
  shows "\<exists>cv'. handleResize (Some (w, h)) s = Inr (s\<lparr>canvasRef := Some cv'\<rparr>)
           \<and> width (bitmap cv') = w \<and> height (bitmap cv') = h
           \<and> (\<forall>i j. pixel_at (bitmap cv') i j =
                 (if i < w \<and> j < h
                  then Some (if i < width (bitmap cv) \<and> j < height (bitmap cv)
                             then pix (bitmap cv) i j else transparent_black)
                  else None))"
proof -
  define img where "img = \<lparr>width = width (bitmap cv), height = height (bitmap cv),
      pix = (\<lambda>i j. case pixel_at (bitmap cv) (0 + i) (0 + j) of
                      None \<Rightarrow> transparent_black | Some p \<Rightarrow> p)\<rparr>"
  define cv' where "cv' = putImageData img 0 0 (set_height h (set_width w cv))"
  have g: "getImageData 0 0 (width (bitmap cv)) (height (bitmap cv)) cv = Inr img"
    using assms(2,3) by (simp add: getImageData_def img_def)
  have r: "handleResize (Some (w, h)) s = Inr (s\<lparr>canvasRef := Some cv'\<rparr>)"
    using assms(1) g by (simp add: handleResize_def cv'_def)
  have d: "width (bitmap cv') = w" "height (bitmap cv') = h"
    by (simp_all add: cv'_def putImageData_def set_height_def set_width_def fresh_canvas_def solid_def)
  have p: "pixel_at (bitmap cv') i j =
             (if i < w \<and> j < h
              then Some (if i < width (bitmap cv) \<and> j < height (bitmap cv)
                         then pix (bitmap cv) i j else transparent_black)
              else None)" for i j
    by (simp add: cv'_def img_def putImageData_def set_height_def set_width_def fresh_canvas_def
        solid_def paint_def in_rect_def pixel_at_def)
  show ?thesis using r d p by blast
qed

theorem resize_keeps_overlap_clears_rest_witness:
  "canvas_pixel (handleResize (Some (3, 1)) ready_state) 1 0 = Some opaque_white
   \<and> canvas_pixel (handleResize (Some (3, 1)) ready_state) 2 0 = Some transparent_black
   \<and> canvas_pixel (handleResize (Some (3, 1)) ready_state) 1 1 = None"
proof -
  from ready_canvas obtain cv where cv: "canvasRef ready_state = Some cv"
    "width (bitmap cv) = 2" "height (bitmap cv) = 2" by blast
  have p: "pix (bitmap cv) 1 0 = opaque_white"
    using cv(1)
    by (auto simp: ready_state_def initEffect_def mountCanvas_def initial_state_def
      saveToHistory_def Let_def set_height_def set_width_def fresh_canvas_def solid_def
      set_fillStyle_def css_white fillRect_def paint_def in_rect_def source_over_def opaque_white_def)
  have w: "0 < width (bitmap cv)" "0 < height (bitmap cv)" using cv by simp_all
  from resize_keeps_overlap_clears_rest [OF cv(1) w, of 3 1] cv p show ?thesis
    by (auto simp: canvas_pixel_def result_canvas_def)
qed

section \<open>Pointer coordinates\<close>

text \<open>
  Claim C8, as stated, fails: a touch that has moved to client position \<open>(5, -3)\<close> over a
  canvas of two by two pixels at the origin hands \<^verbatim>\<open>lineTo\<close> the point \<open>(5, -3)\<close>, which
  is outside the surface.
\<close>

theorem touch_outside_canvas_reaches_lineTo:
  "map_option path (result_canvas
     (then_do (handleTouchStart (0, 0) [(1, 1)] ready_state)
        (handleTouchMove test_platform (0, 0) [(5, - 3)])))
     = Some [MoveTo \<lparr>pt_x = 1, pt_y = 1\<rparr>, LineTo \<lparr>pt_x = 5, pt_y = - 3\<rparr>]
   \<and> map_option path_in_bounds (result_canvas
     (then_do (handleTouchStart (0, 0) [(1, 1)] ready_state)
        (handleTouchMove test_platform (0, 0) [(5, - 3)]))) = Some False"
proof -
  from ready_canvas_path obtain cv where cv: "canvasRef ready_state = Some cv"
    "width (bitmap cv) = 2" "height (bitmap cv) = 2" "path cv = []" by blast
  show ?thesis
    using cv ready_mode
    by (simp add: then_do_def handleTouchStart_def handleTouchMove_def touch_point_def
        first_touch_def begin_at_def Let_def draw_at_def result_canvas_def beginPath_def
        add_seg_def path_in_bounds_def seg_points_def in_bounds_def)
qed

text \<open>
  Claim C8, amended. The handlers neither clamp nor raise: for a mouse event, or a touch
  event with at least one touch, the point is the client position minus the origin of the
  canvas (and \<open>(0, 0)\<close> from \<^verbatim>\<open>getCoordinates\<close> when no canvas is mounted), and the move
  handlers pass that point as it is to \<^verbatim>\<open>lineTo\<close>, \<^verbatim>\<open>rect\<close>, \<^verbatim>\<open>arc\<close> and
  \<^verbatim>\<open>moveTo\<close>.
\<close>

theorem pointer_coordinates_are_unclamped_offsets:
  "(canvasRef s = Some cv \<longrightarrow>
      getCoordinates origin (MouseEvent cx cy) s = Inr \<lparr>pt_x = cx - fst origin, pt_y = cy - snd origin\<rparr>
    \<and> getCoordinates origin (TouchEvent ((cx, cy) # ts)) s
        = Inr \<lparr>pt_x = cx - fst origin, pt_y = cy - snd origin\<rparr>
    \<and> touch_point origin ((cx, cy) # ts) s = Inr \<lparr>pt_x = cx - fst origin, pt_y = cy - snd origin\<rparr>
    \<and> (isDrawing s \<longrightarrow>
          draw P origin (MouseEvent cx cy) s
            = Inr (draw_at P \<lparr>pt_x = cx - fst origin, pt_y = cy - snd origin\<rparr> s)
        \<and> handleTouchMove P origin ((cx, cy) # ts) s
            = Inr (draw_at P \<lparr>pt_x = cx - fst origin, pt_y = cy - snd origin\<rparr> s))
    \<and> (drawingMode s = Pen \<or> drawingMode s = Eraser \<longrightarrow>
          map_option path (canvasRef (draw_at P p s)) = Some (path cv @ [LineTo p]))
    \<and> (startPoint s = Some sp \<and> shapePreviewImage s = Some img \<longrightarrow>
          (drawingMode s = Rectangle \<longrightarrow>
             map_option path (canvasRef (draw_at P p s))
               = Some [Rect (pt_x sp) (pt_y sp) (pt_x p - pt_x sp) (pt_y p - pt_y sp)])
        \<and> (drawingMode s = Circle \<longrightarrow>
             map_option path (canvasRef (draw_at P p s))
               = Some [Arc (pt_x sp) (pt_y sp)
                         (sqrt ((pt_x p - pt_x sp)\<^sup>2 + (pt_y p - pt_y sp)\<^sup>2)) 0 (2 * pi)])
        \<and> (drawingMode s = Line \<longrightarrow>
             map_option path (canvasRef (draw_at P p s)) = Some [MoveTo sp, LineTo p])))
   \<and> (canvasRef s = None \<longrightarrow>
        getCoordinates origin (MouseEvent cx cy) s = Inr \<lparr>pt_x = 0, pt_y = 0\<rparr>
      \<and> touch_point origin ((cx, cy) # ts) s = Inr \<lparr>pt_x = cx, pt_y = cy\<rparr>)"
  by (intro conjI impI)
    (auto simp: getCoordinates_def touch_point_def first_touch_def draw_def handleTouchMove_def
      draw_at_def Let_def add_seg_def beginPath_def)

theorem pointer_coordinates_are_unclamped_offsets_witness:
  "getCoordinates (10, 10) (MouseEvent 3 4) ready_state = Inr \<lparr>pt_x = - 7, pt_y = - 6\<rparr>
   \<and> touch_point (10, 10) [(30, 40)] ready_state = Inr \<lparr>pt_x = 20, pt_y = 30\<rparr>
   \<and> map_option path (canvasRef (draw_at test_platform \<lparr>pt_x = - 7, pt_y = - 6\<rparr> ready_state))
       = Some [LineTo \<lparr>pt_x = - 7, pt_y = - 6\<rparr>]"
proof -
  from ready_canvas_path obtain cv where cv: "canvasRef ready_state = Some cv" "path cv = []"
    by blast
  show ?thesis
    using pointer_coordinates_are_unclamped_offsets
            [of ready_state cv "(10, 10)" 3 4 "[]" test_platform "\<lparr>pt_x = - 7, pt_y = - 6\<rparr>"]
          pointer_coordinates_are_unclamped_offsets
            [of ready_state cv "(10, 10)" 30 40 "[]" test_platform]
          cv ready_mode
    by simp
qed

section \<open>Shape preview\<close>










section \<open>Gestures\<close>

lemma saveToHistory_isDrawing [simp]: "isDrawing (saveToHistory P s) = isDrawing s"
  by (simp add: saveToHistory_def Let_def split: option.splits)

lemma begin_at_frame:
  assumes "begin_at p s = Inr s'"
  shows "map_option bitmap (canvasRef s') = map_option bitmap (canvasRef s)
       \<and> history s' = history s \<and> historyIndex s' = historyIndex s"
  using assms
  by (auto simp: begin_at_def Let_def add_seg_def beginPath_def split: if_splits option.splits sum.splits)

lemma draw_at_isDrawing [simp]: "isDrawing (draw_at P p s) = isDrawing s"
  by (simp add: draw_at_def Let_def split: option.splits)

text \<open>
  Claim C10. While no gesture is open, a move event returns the state as it was (so the
  canvas keeps its pixels), an up, leave or touch-end event returns the state as it was (no
  entry is pushed, log and cursor stay), and a down event changes neither the bitmap nor
  the log. A gesture is closed after every up event, and a move event never opens one: the
  canvas and the log change through pointer events only between a down and its up
  (\<^verbatim>\<open>onMouseUp\<close> and \<^verbatim>\<open>onMouseLeave\<close> are both \<^verbatim>\<open>stopDrawing\<close>).
\<close>

theorem idle_pointer_events_change_nothing:
  "(\<not> isDrawing s \<longrightarrow>
      draw P origin e s = Inr s
    \<and> handleTouchMove P origin ts s = Inr s
    \<and> stopDrawing P s = s
    \<and> handleTouchEnd P s = s
    \<and> (\<forall>s'. startDrawing origin e s = Inr s' \<or> handleTouchStart origin ts s = Inr s' \<longrightarrow>
          map_option bitmap (canvasRef s') = map_option bitmap (canvasRef s)
        \<and> history s' = history s \<and> historyIndex s' = historyIndex s))
   \<and> \<not> isDrawing (stopDrawing P s) \<and> \<not> isDrawing (handleTouchEnd P s)
   \<and> (\<forall>s'. draw P origin e s = Inr s' \<or> handleTouchMove P origin ts s = Inr s' \<longrightarrow>
         isDrawing s' = isDrawing s)"
proof -
  have a: "map_option bitmap (canvasRef s') = map_option bitmap (canvasRef s)
        \<and> history s' = history s \<and> historyIndex s' = historyIndex s"
    if "startDrawing origin e s = Inr s' \<or> handleTouchStart origin ts s = Inr s'" for s'
    using that
    by (auto simp: startDrawing_def handleTouchStart_def split: sum.splits dest: begin_at_frame)
  have b: "isDrawing s' = isDrawing s"
    if "draw P origin e s = Inr s' \<or> handleTouchMove P origin ts s = Inr s'" for s'
    using that
    by (auto simp: draw_def handleTouchMove_def split: if_splits sum.splits)
  have c: "\<forall>s'. startDrawing origin e s = Inr s' \<or> handleTouchStart origin ts s = Inr s' \<longrightarrow>
          map_option bitmap (canvasRef s') = map_option bitmap (canvasRef s)
        \<and> history s' = history s \<and> historyIndex s' = historyIndex s"
    using a by blast
  have d: "\<forall>s'. draw P origin e s = Inr s' \<or> handleTouchMove P origin ts s = Inr s' \<longrightarrow>
         isDrawing s' = isDrawing s"
    using b by blast
  have e: "\<not> isDrawing (stopDrawing P s)" "\<not> isDrawing (handleTouchEnd P s)"
    by (simp_all add: stopDrawing_def handleTouchEnd_def)
  have f: "draw P origin e s = Inr s" "handleTouchMove P origin ts s = Inr s"
    "stopDrawing P s = s" "handleTouchEnd P s = s" if "\<not> isDrawing s"
    using that by (simp_all add: draw_def handleTouchMove_def stopDrawing_def handleTouchEnd_def)
  show ?thesis
    by (intro conjI impI) (rule c d e f, assumption?)+
qed

theorem idle_pointer_events_change_nothing_witness:
  "\<not> isDrawing ready_state
   \<and> draw test_platform (0, 0) (MouseEvent 1 1) ready_state = Inr ready_state
   \<and> handleTouchMove test_platform (0, 0) [(1, 1)] ready_state = Inr ready_state
   \<and> stopDrawing test_platform ready_state = ready_state
   \<and> handleTouchEnd test_platform ready_state = ready_state
   \<and> history (stopDrawing test_platform ready_state) = [''two'']
   \<and> historyIndex (handleTouchEnd test_platform ready_state) = 0"
proof -
  have h: "history ready_state = [''two'']" "historyIndex ready_state = 0"
    by (simp_all add: ready_state_def initEffect_def mountCanvas_def initial_state_def
      saveToHistory_def Let_def set_height_def set_width_def fresh_canvas_def solid_def
      set_fillStyle_def css_white fillRect_def test_platform_def)
  show ?thesis
    using idle_pointer_events_change_nothing
      [of ready_state test_platform "(0, 0)" "MouseEvent 1 1" "[(1, 1)]"] ready_mode h
    by simp
qed

end
